theory Spec2Isabelle
  imports Complex_Main
begin

section \<open>Python values shared by the models\<close>

text \<open>
  An exception is its class name and its message; \<open>str(e)\<close> is the message.
  Functions that can raise return \<open>exn + 'a\<close>, with \<open>Inl\<close> the raised exception.
\<close>

datatype exn = Exn string string

fun exn_class :: "exn \<Rightarrow> string" where
  "exn_class (Exn c m) = c"

fun exn_str :: "exn \<Rightarrow> string" where
  "exn_str (Exn c m) = m"

text \<open>
  Strings are lists of 8-bit characters. \<open>str.lower\<close> and \<open>str.split\<close> are modelled
  on the ASCII range: the letters A-Z are lowered, and the whitespace characters are
  tab, line feed, vertical tab, form feed, carriage return, the four separators
  0x1c-0x1f and the space.
\<close>

definition py_isspace :: "char \<Rightarrow> bool" where
  "py_isspace c = (let n = (of_char c :: nat) in (9 \<le> n \<and> n \<le> 13) \<or> (28 \<le> n \<and> n \<le> 32))"

definition lower_char :: "char \<Rightarrow> char" where
  "lower_char c = (let n = (of_char c :: nat) in if 65 \<le> n \<and> n \<le> 90 then char_of (n + 32) else c)"

definition py_lower :: "string \<Rightarrow> string" where
  "py_lower s = map lower_char s"

text \<open>\<open>s.split()\<close>: the maximal runs of non-whitespace characters, in order.\<close>

fun split_acc :: "string \<Rightarrow> string \<Rightarrow> string list" where
  "split_acc w [] = (if w = [] then [] else [w])"
| "split_acc w (c # cs) =
     (if py_isspace c then (if w = [] then split_acc [] cs else w # split_acc [] cs)
      else split_acc (w @ [c]) cs)"

definition py_split :: "string \<Rightarrow> string list" where
  "py_split s = split_acc [] s"

text \<open>\<open>sep.join(ws)\<close>.\<close>

fun py_join :: "string \<Rightarrow> string list \<Rightarrow> string" where
  "py_join sep [] = []"
| "py_join sep [w] = w"
| "py_join sep (w # v # ws) = w @ sep @ py_join sep (v # ws)"

text \<open>A dict with string keys as an association list; \<open>d.get(k, default)\<close>.\<close>

definition dict_get :: "(string \<times> 'v) list \<Rightarrow> string \<Rightarrow> 'v \<Rightarrow> 'v" where
  "dict_get d k dflt = (case map_of d k of None \<Rightarrow> dflt | Some v \<Rightarrow> v)"

section \<open>utils/file_handler.py: the deduplication hash\<close>

text \<open>
  \<open>generate_content_hash(content, metadata=None)\<close>. The digest itself,
  \<open>hashlib.sha256(x.encode()).hexdigest()\<close>, is the parameter \<open>sha256_hex\<close>.
  \<open>if metadata:\<close> is false for \<open>None\<close> and for the empty dict.
\<close>

definition normalize_content :: "string \<Rightarrow> string" where
  "normalize_content content = py_join '' '' (py_split (py_lower content))"

definition hash_input :: "string \<Rightarrow> (string \<times> string) list option \<Rightarrow> string" where
  "hash_input content metadata =
     (let normalized = normalize_content content in
      case metadata of
        None \<Rightarrow> normalized
      | Some md \<Rightarrow>
          if md = [] then normalized
          else (let url = dict_get md ''url'' '''';
                    title = dict_get md ''title'' ''''
                in normalized @ ''|'' @ url @ ''|'' @ title))"

definition generate_content_hash ::
  "(string \<Rightarrow> string) \<Rightarrow> string \<Rightarrow> (string \<times> string) list option \<Rightarrow> string" where
  "generate_content_hash sha256_hex content metadata = sha256_hex (hash_input content metadata)"

text \<open>The metadata dicts that \<open>process_url\<close> and \<open>process_file\<close> pass (step 2 of each).\<close>

definition url_metadata :: "string \<Rightarrow> string \<Rightarrow> (string \<times> string) list option" where
  "url_metadata url title = Some [(''url'', url), (''title'', title)]"

definition file_metadata :: "string \<Rightarrow> string \<Rightarrow> (string \<times> string) list option" where
  "file_metadata original_filename title = Some [(''file'', original_filename), (''title'', title)]"

section \<open>utils/rate_limiter.py\<close>

text \<open>
  The limiter's fields. Timestamps are the readings of \<open>time.time()\<close>, taken as real
  numbers; the deque is a list with its left end first.
\<close>

record rate_limiter =
  max_requests :: int
  time_window :: int
  requests :: "real list"

text \<open>
  \<open>while self.requests and self.requests[0] <= bound: self.requests.popleft()\<close>
\<close>

fun evict :: "real \<Rightarrow> real list \<Rightarrow> real list" where
  "evict bound [] = []"
| "evict bound (r # rs) = (if r \<le> bound then evict bound rs else r # rs)"

text \<open>
  \<open>acquire\<close>, with the two clock readings as inputs: \<open>t1\<close> is read on entry, \<open>t2\<close>
  after the sleep (it is only read when the call sleeps). The result is the time slept,
  if any, and the limiter afterwards. \<open>self.requests[0]\<close> on an empty deque raises
  IndexError.
\<close>

definition acquire :: "real \<Rightarrow> real \<Rightarrow> rate_limiter \<Rightarrow> exn + (real option \<times> rate_limiter)" where
  "acquire t1 t2 rl =
     (let reqs1 = evict (t1 - real_of_int (time_window rl)) (requests rl) in
      if max_requests rl \<le> int (length reqs1) then
        (case reqs1 of
           [] \<Rightarrow> Inl (Exn ''IndexError'' ''deque index out of range'')
         | r0 # _ \<Rightarrow>
             (let wait_time = real_of_int (time_window rl) - (t1 - r0) in
              if 0 < wait_time then
                (let reqs2 = evict (t2 - real_of_int (time_window rl)) reqs1
                 in Inr (Some wait_time, rl\<lparr>requests := reqs2 @ [t2]\<rparr>))
              else Inr (None, rl\<lparr>requests := reqs1 @ [t1]\<rparr>)))
      else Inr (None, rl\<lparr>requests := reqs1 @ [t1]\<rparr>))"

text \<open>\<open>can_proceed\<close>: evicts and compares, recording nothing.\<close>

definition can_proceed :: "real \<Rightarrow> rate_limiter \<Rightarrow> bool \<times> rate_limiter" where
  "can_proceed t rl =
     (let reqs1 = evict (t - real_of_int (time_window rl)) (requests rl)
      in (int (length reqs1) < max_requests rl, rl\<lparr>requests := reqs1\<rparr>))"

section \<open>More string operations\<close>

fun startswith :: "string \<Rightarrow> string \<Rightarrow> bool" where
  "startswith s [] = True"
| "startswith [] (p # ps) = False"
| "startswith (c # cs) (p # ps) = (c = p \<and> startswith cs ps)"

definition endswith :: "string \<Rightarrow> string \<Rightarrow> bool" where
  "endswith s suffix = startswith (rev s) (rev suffix)"

text \<open>\<open>sub in s\<close> for strings.\<close>

fun py_in :: "string \<Rightarrow> string \<Rightarrow> bool" where
  "py_in sub [] = (sub = [])"
| "py_in sub (c # cs) = (startswith (c # cs) sub \<or> py_in sub cs)"

text \<open>\<open>s.find(sub, start)\<close>: the first index at or after \<open>start\<close>, or -1.\<close>

fun find_aux :: "string \<Rightarrow> string \<Rightarrow> nat \<Rightarrow> int" where
  "find_aux sub [] i = (if sub = [] then int i else - 1)"
| "find_aux sub (c # cs) i = (if startswith (c # cs) sub then int i else find_aux sub cs (Suc i))"

definition py_find :: "string \<Rightarrow> string \<Rightarrow> nat \<Rightarrow> int" where
  "py_find s sub start = (if length s < start then - 1 else find_aux sub (drop start s) start)"

text \<open>\<open>s[a:b]\<close>: a negative index counts from the end, and both are clamped to the string.\<close>

definition slice_index :: "nat \<Rightarrow> int \<Rightarrow> nat" where
  "slice_index n i = (if i < 0 then nat (int n + i) else min n (nat i))"

definition py_slice :: "string \<Rightarrow> int \<Rightarrow> int \<Rightarrow> string" where
  "py_slice s a b = (let lo = slice_index (length s) a; hi = slice_index (length s) b
                     in take (hi - lo) (drop lo s))"

definition py_strip :: "string \<Rightarrow> string" where
  "py_strip s = rev (dropWhile py_isspace (rev (dropWhile py_isspace s)))"

section \<open>utils/url_parser.py and the extractors' \<open>can_handle\<close>\<close>

text \<open>
  \<open>urlparse(...).netloc\<close> belongs to the standard library; the functions below take it
  as the parameter \<open>netloc_of\<close>, which may raise (urlparse raises ValueError on an
  unbalanced bracket in the host). \<open>urlsplit_netloc\<close> is the standard library's rule
  for the common case, used to run the router on concrete URLs: an optional scheme up to
  the first colon, then, after \<open>//\<close>, the text up to the first of \<open>/ ? #\<close>.
\<close>

definition scheme_char :: "char \<Rightarrow> bool" where
  "scheme_char c = (let n = (of_char c :: nat) in
     (97 \<le> n \<and> n \<le> 122) \<or> (65 \<le> n \<and> n \<le> 90) \<or> (48 \<le> n \<and> n \<le> 57) \<or> n = 43 \<or> n = 45 \<or> n = 46)"

definition ascii_alpha :: "char \<Rightarrow> bool" where
  "ascii_alpha c = (let n = (of_char c :: nat) in (97 \<le> n \<and> n \<le> 122) \<or> (65 \<le> n \<and> n \<le> 90))"

definition strip_scheme :: "string \<Rightarrow> string" where
  "strip_scheme url =
     (let pre = takeWhile (\<lambda>c. c \<noteq> CHR '':'') url in
      if length pre < length url \<and> pre \<noteq> [] \<and> ascii_alpha (hd pre) \<and> list_all scheme_char pre
      then drop (Suc (length pre)) url else url)"

definition urlsplit_netloc :: "string \<Rightarrow> exn + string" where
  "urlsplit_netloc url =
     (let rest = strip_scheme url in
      if take 2 rest = ''//'' then
        (let netloc = takeWhile (\<lambda>c. c \<noteq> CHR ''/'' \<and> c \<noteq> CHR ''?'' \<and> c \<noteq> CHR ''#'') (drop 2 rest) in
         if (CHR ''['' \<in> set netloc) \<noteq> (CHR '']'' \<in> set netloc)
         then Inl (Exn ''ValueError'' ''Invalid IPv6 URL'')
         else Inr netloc)
      else Inr [])"

text \<open>
  \<open>detect_content_type\<close>: only the first component of the returned pair is modelled, the
  one every \<open>can_handle\<close> reads (\<open>content_type, _ = detect_content_type(source)\<close>).
\<close>

definition detect_content_type :: "(string \<Rightarrow> exn + string) \<Rightarrow> string \<Rightarrow> exn + string" where
  "detect_content_type netloc_of url =
     (case netloc_of (py_lower url) of
        Inl e \<Rightarrow> Inl e
      | Inr domain \<Rightarrow>
          Inr (if py_in ''twitter.com'' domain \<or> py_in ''x.com'' domain then ''twitter''
               else if py_in ''arxiv.org'' domain then ''arxiv''
               else if py_in ''dl.acm.org'' domain \<or> py_in ''acm.org'' domain then ''acm''
               else ''web''))"

datatype extractor = TwitterExtractor | ArxivExtractor | ACMExtractor | PDFExtractor | WebExtractor

fun get_source_type :: "extractor \<Rightarrow> string" where
  "get_source_type TwitterExtractor = ''twitter''"
| "get_source_type ArxivExtractor = ''arxiv''"
| "get_source_type ACMExtractor = ''acm''"
| "get_source_type PDFExtractor = ''pdf''"
| "get_source_type WebExtractor = ''web''"

definition url_type_is :: "(string \<Rightarrow> exn + string) \<Rightarrow> string \<Rightarrow> string \<Rightarrow> exn + bool" where
  "url_type_is netloc_of source ty =
     (case detect_content_type netloc_of source of Inl e \<Rightarrow> Inl e | Inr t \<Rightarrow> Inr (t = ty))"

fun can_handle :: "(string \<Rightarrow> exn + string) \<Rightarrow> extractor \<Rightarrow> string \<Rightarrow> bool \<Rightarrow> exn + bool" where
  "can_handle netloc_of TwitterExtractor source is_file =
     (if is_file then Inr False else url_type_is netloc_of source ''twitter'')"
| "can_handle netloc_of ArxivExtractor source is_file =
     (if is_file then Inr False else url_type_is netloc_of source ''arxiv'')"
| "can_handle netloc_of ACMExtractor source is_file =
     (if is_file then Inr False else url_type_is netloc_of source ''acm'')"
| "can_handle netloc_of PDFExtractor source is_file =
     (if \<not> is_file then Inr False else Inr (endswith (py_lower source) ''.pdf''))"
| "can_handle netloc_of WebExtractor source is_file =
     (if is_file then Inr False
      else Inr (startswith source ''http://'' \<or> startswith source ''https://''))"

section \<open>extractors/factory.py\<close>

definition extractors :: "extractor list" where
  "extractors = [TwitterExtractor, ArxivExtractor, ACMExtractor, PDFExtractor, WebExtractor]"

text \<open>
  The loop of \<open>get_extractor\<close>: the first candidate whose \<open>can_handle\<close> returns true; a
  candidate whose check raises is logged and skipped.
\<close>

fun first_capable :: "(string \<Rightarrow> exn + string) \<Rightarrow> extractor list \<Rightarrow> string \<Rightarrow> bool \<Rightarrow> extractor option" where
  "first_capable netloc_of [] source is_file = None"
| "first_capable netloc_of (x # xs) source is_file =
     (case can_handle netloc_of x source is_file of
        Inr True \<Rightarrow> Some x
      | Inr False \<Rightarrow> first_capable netloc_of xs source is_file
      | Inl e \<Rightarrow> first_capable netloc_of xs source is_file)"

definition get_extractor :: "(string \<Rightarrow> exn + string) \<Rightarrow> string \<Rightarrow> bool \<Rightarrow> exn + extractor" where
  "get_extractor netloc_of source is_file =
     (case first_capable netloc_of extractors source is_file of
        Some x \<Rightarrow> Inr x
      | None \<Rightarrow> Inl (Exn ''ValueError'' (''No suitable extractor found for source: '' @ take 100 source)))"

section \<open>JSON values and the dynamic operations the services apply to them\<close>

text \<open>
  What \<open>json.loads\<close> returns. Numbers (int and float alike) are real numbers; a JSON
  \<open>null\<close> is Python's \<open>None\<close>. An object is an association list (its keys distinct).
\<close>

datatype json = JNull | JBool bool | JNum real | JStr string | JArr "json list" | JObj "(string \<times> json) list"

type_synonym dict = "(string \<times> json) list"

text \<open>\<open>d[k] = v\<close> on a dict.\<close>

fun dict_set :: "(string \<times> 'v) list \<Rightarrow> string \<Rightarrow> 'v \<Rightarrow> (string \<times> 'v) list" where
  "dict_set [] k v = [(k, v)]"
| "dict_set ((k', v') # d) k v = (if k' = k then (k, v) # d else (k', v') # dict_set d k v)"

text \<open>\<open>d[k]\<close> on a dict: KeyError when the key is missing.\<close>

definition dict_getitem :: "dict \<Rightarrow> string \<Rightarrow> exn + json" where
  "dict_getitem d k = (case map_of d k of None \<Rightarrow> Inl (Exn ''KeyError'' k) | Some v \<Rightarrow> Inr v)"

text \<open>\<open>k in x\<close> for a string \<open>k\<close>.\<close>

fun py_in_json :: "string \<Rightarrow> json \<Rightarrow> exn + bool" where
  "py_in_json k (JObj d) = Inr (map_of d k \<noteq> None)"
| "py_in_json k (JStr s) = Inr (py_in k s)"
| "py_in_json k (JArr xs) = Inr (JStr k \<in> set xs)"
| "py_in_json k JNull = Inl (Exn ''TypeError'' ''argument of type NoneType is not iterable'')"
| "py_in_json k (JBool b) = Inl (Exn ''TypeError'' ''argument of type bool is not iterable'')"
| "py_in_json k (JNum r) = Inl (Exn ''TypeError'' ''argument of type number is not iterable'')"

text \<open>\<open>x.get(k, default)\<close>: only a dict has \<open>get\<close>.\<close>

fun py_get :: "json \<Rightarrow> string \<Rightarrow> json \<Rightarrow> exn + json" where
  "py_get (JObj d) k dflt = Inr (dict_get d k dflt)"
| "py_get x k dflt = Inl (Exn ''AttributeError'' ''object has no attribute get'')"

text \<open>\<open>x[k]\<close> for a string \<open>k\<close>.\<close>

fun py_getitem :: "json \<Rightarrow> string \<Rightarrow> exn + json" where
  "py_getitem (JObj d) k = dict_getitem d k"
| "py_getitem x k = Inl (Exn ''TypeError'' ''indices must be integers or object is not subscriptable'')"

text \<open>\<open>len(x)\<close>.\<close>

fun py_len :: "json \<Rightarrow> exn + nat" where
  "py_len (JStr s) = Inr (length s)"
| "py_len (JArr xs) = Inr (length xs)"
| "py_len (JObj d) = Inr (length d)"
| "py_len x = Inl (Exn ''TypeError'' ''object has no len()'')"

text \<open>\<open>for y in x\<close>: the values iterated over (a string yields its characters, a dict its keys).\<close>

fun py_iter :: "json \<Rightarrow> exn + json list" where
  "py_iter (JArr xs) = Inr xs"
| "py_iter (JStr s) = Inr (map (\<lambda>c. JStr [c]) s)"
| "py_iter (JObj d) = Inr (map (\<lambda>kv. JStr (fst kv)) d)"
| "py_iter x = Inl (Exn ''TypeError'' ''object is not iterable'')"

text \<open>\<open>for y in x[:3]\<close>.\<close>

fun py_first3 :: "json \<Rightarrow> exn + json list" where
  "py_first3 (JArr xs) = Inr (take 3 xs)"
| "py_first3 (JStr s) = Inr (map (\<lambda>c. JStr [c]) (take 3 s))"
| "py_first3 x = Inl (Exn ''TypeError'' ''object is not subscriptable'')"

text \<open>Truth value of \<open>x\<close>.\<close>

fun py_truthy :: "json \<Rightarrow> bool" where
  "py_truthy JNull = False"
| "py_truthy (JBool b) = b"
| "py_truthy (JNum r) = (r \<noteq> 0)"
| "py_truthy (JStr s) = (s \<noteq> [])"
| "py_truthy (JArr xs) = (xs \<noteq> [])"
| "py_truthy (JObj d) = (d \<noteq> [])"

text \<open>\<open>x >= r\<close> for a float \<open>r\<close>: numbers and booleans compare, anything else raises.\<close>

fun py_ge :: "json \<Rightarrow> real \<Rightarrow> exn + bool" where
  "py_ge (JNum x) r = Inr (r \<le> x)"
| "py_ge (JBool b) r = Inr (r \<le> (if b then 1 else 0))"
| "py_ge x r = Inl (Exn ''TypeError'' ''>= not supported between these instances'')"

definition ebind :: "exn + 'a \<Rightarrow> ('a \<Rightarrow> exn + 'b) \<Rightarrow> exn + 'b" where
  "ebind r f = (case r of Inl e \<Rightarrow> Inl e | Inr x \<Rightarrow> f x)"

text \<open>\<open>raise Exception(f"{prefix}{str(e)}")\<close>\<close>

definition wrap_exn :: "string \<Rightarrow> exn \<Rightarrow> exn" where
  "wrap_exn prefix e = Exn ''Exception'' (prefix @ exn_str e)"

section \<open>services/ai\_service.py\<close>

text \<open>
  What \<open>client.messages.create\<close> returns: the texts of \<open>response.content\<close> and
  \<open>response.usage.output_tokens\<close>. The outcome of building the prompt and calling the
  API is an input of the model, \<open>exn + llm_response\<close>; so is \<open>json.loads\<close>, which raises
  JSONDecodeError on text that is not JSON.
\<close>

record llm_response =
  content_texts :: "string list"
  output_tokens :: int

definition model_id :: string where
  "model_id = ''claude-sonnet-4-5-20250929''"

text \<open>Lines 92-99 (and their copies in the other two methods): the text inside a fence.\<close>

definition extract_fenced :: "string \<Rightarrow> string" where
  "extract_fenced response_text =
     (if py_in ''```json'' response_text then
        (let json_start = py_find response_text ''```json'' 0 + 7;
             json_end = py_find response_text ''```'' (nat json_start)
         in py_strip (py_slice response_text json_start json_end))
      else if py_in ''```'' response_text then
        (let json_start = py_find response_text ''```'' 0 + 3;
             json_end = py_find response_text ''```'' (nat json_start)
         in py_strip (py_slice response_text json_start json_end))
      else response_text)"

definition degraded_summary :: "string \<Rightarrow> int \<Rightarrow> dict" where
  "degraded_summary response_text tokens =
     [(''overview'', JStr response_text),
      (''key_insights'', JArr [JStr ''Summary generation partially failed - see overview'']),
      (''implications'', JNull),
      (''suggested_themes'', JArr []),
      (''token_count'', JNum (real_of_int tokens)),
      (''model_version'', JStr model_id)]"

definition brief_summary :: "string \<Rightarrow> int \<Rightarrow> dict" where
  "brief_summary response_text tokens =
     [(''overview'', JStr response_text),
      (''key_insights'', JArr []),
      (''implications'', JNull),
      (''suggested_themes'', JArr []),
      (''token_count'', JNum (real_of_int tokens)),
      (''model_version'', JStr model_id)]"

text \<open>\<open>summary_data['token_count'] = ...\<close>: item assignment by a string key needs a dict.\<close>

definition set_metadata :: "json \<Rightarrow> int \<Rightarrow> exn + dict" where
  "set_metadata summary_data tokens =
     (case summary_data of
        JObj d \<Rightarrow> Inr (dict_set (dict_set d ''token_count'' (JNum (real_of_int tokens)))
                          ''model_version'' (JStr model_id))
      | _ \<Rightarrow> Inl (Exn ''TypeError'' ''object does not support item assignment''))"

text \<open>The inner \<open>try\<close> of \<open>generate_summary\<close> (lines 89-128).\<close>

definition parse_summary :: "(string \<Rightarrow> exn + json) \<Rightarrow> string \<Rightarrow> int \<Rightarrow> exn + dict" where
  "parse_summary loads response_text0 tokens =
     (let response_text = extract_fenced response_text0 in
      case loads response_text of
        Inl e \<Rightarrow>
          if exn_class e = ''JSONDecodeError'' then Inr (degraded_summary response_text tokens)
          else Inl e
      | Inr summary_data \<Rightarrow>
          ebind (py_in_json ''overview'' summary_data) (\<lambda>has_overview.
          if \<not> has_overview then Inl (Exn ''ValueError'' ''Missing 'overview' in summary'')
          else ebind (py_in_json ''key_insights'' summary_data) (\<lambda>has_insights.
          if \<not> has_insights then Inl (Exn ''ValueError'' ''Missing 'key_insights' in summary'')
          else set_metadata summary_data tokens)))"

text \<open>\<open>response.content[0].text\<close>\<close>

definition response_text_of :: "llm_response \<Rightarrow> exn + string" where
  "response_text_of response =
     (case content_texts response of
        [] \<Rightarrow> Inl (Exn ''IndexError'' ''list index out of range'')
      | t # _ \<Rightarrow> Inr t)"

text \<open>
  \<open>generate_summary\<close>, after \<open>rate_limiter.acquire()\<close>. Every exception of the body is
  re-raised wrapped.
\<close>

definition generate_summary ::
  "(string \<Rightarrow> exn + json) \<Rightarrow> exn + llm_response \<Rightarrow> string \<Rightarrow> exn + dict" where
  "generate_summary loads api_result summary_type =
     (case ebind api_result (\<lambda>response.
             ebind (response_text_of response) (\<lambda>response_text.
             if summary_type = ''comprehensive''
             then parse_summary loads response_text (output_tokens response)
             else Inr (brief_summary response_text (output_tokens response)))) of
        Inl e \<Rightarrow> Inl (wrap_exn ''Failed to generate summary: '' e)
      | Inr summary_data \<Rightarrow> Inr summary_data)"

text \<open>\<open>AIService.categorize_content\<close>: the parsed categorization, or the empty one.\<close>

definition empty_categorization :: json where
  "empty_categorization = JObj [(''theme_matches'', JArr []), (''new_theme_suggestion'', JNull)]"

definition ai_categorize_content :: "(string \<Rightarrow> exn + json) \<Rightarrow> exn + llm_response \<Rightarrow> exn + json" where
  "ai_categorize_content loads api_result =
     (case ebind api_result (\<lambda>response.
             ebind (response_text_of response) (\<lambda>response_text.
             case loads (extract_fenced response_text) of
               Inl e \<Rightarrow> if exn_class e = ''JSONDecodeError'' then Inr empty_categorization else Inl e
             | Inr categorization \<Rightarrow>
                 ebind (py_get categorization ''theme_matches'' (JArr [])) (\<lambda>ms.
                 ebind (py_len ms) (\<lambda>n. Inr categorization)))) of
        Inl e \<Rightarrow> Inl (wrap_exn ''Failed to categorize content: '' e)
      | Inr categorization \<Rightarrow> Inr categorization)"

text \<open>\<open>AIService.bootstrap_themes\<close>: the proposed themes, or the empty list.\<close>

definition ai_bootstrap_themes :: "(string \<Rightarrow> exn + json) \<Rightarrow> exn + llm_response \<Rightarrow> exn + json" where
  "ai_bootstrap_themes loads api_result =
     (case ebind api_result (\<lambda>response.
             ebind (response_text_of response) (\<lambda>response_text.
             case loads (extract_fenced response_text) of
               Inl e \<Rightarrow> if exn_class e = ''JSONDecodeError'' then Inr (JArr []) else Inl e
             | Inr result \<Rightarrow>
                 ebind (py_get result ''themes'' (JArr [])) (\<lambda>themes.
                 ebind (py_len themes) (\<lambda>n. Inr themes)))) of
        Inl e \<Rightarrow> Inl (wrap_exn ''Failed to bootstrap themes: '' e)
      | Inr themes \<Rightarrow> Inr themes)"

section \<open>The relational store and the session\<close>

text \<open>The rows of models/content.py, summary.py, theme.py and content\_theme.py.\<close>

record content_row =
  c_id :: int
  c_source_type :: string
  c_source_url :: "string option"
  c_file_path :: "string option"
  c_title :: string
  c_author :: "string option"
  c_publish_date :: "int option"
  c_raw_content :: string
  c_content_hash :: string
  c_extraction_metadata :: json
  c_created_at :: int

record summary_row =
  s_id :: int
  s_content_id :: int
  s_overview :: json
  s_key_insights :: json
  s_implications :: json
  s_model_version :: json
  s_token_count :: json

record theme_row =
  t_id :: int
  t_name :: json
  t_description :: json
  t_color :: string
  t_content_count :: int

record content_theme_row =
  ct_id :: int
  ct_content_id :: int
  ct_theme_id :: json
  ct_confidence :: json

record tables =
  contents :: "content_row list"
  summaries :: "summary_row list"
  themes :: "theme_row list"
  content_themes :: "content_theme_row list"

text \<open>
  An \<open>AsyncSession\<close>: \<open>cur\<close> is what the open transaction sees (rows added in it
  included), \<open>com\<close> what is committed. The id counters are the tables' sequences.
  \<open>round_trips\<close> counts the statements sent to the database, \<open>commits\<close> the commits
  that succeeded and \<open>llm_calls\<close> the requests made to the LLM.
\<close>

record session =
  cur :: tables
  com :: tables
  next_content_id :: int
  next_summary_id :: int
  next_theme_id :: int
  next_content_theme_id :: int
  round_trips :: nat
  commits :: nat
  llm_calls :: nat

text \<open>What an extractor returns (\<open>BaseExtractor._create_result\<close>).\<close>

record extracted =
  ex_title :: string
  ex_author :: "string option"
  ex_publish_date :: "int option"
  ex_content :: string
  ex_metadata :: json

text \<open>
  The world outside the repository, fixed for a run: the standard library's netloc and
  JSON parser and the digest; what each extractor's \<open>extract\<close> returns; the outcome of
  the n-th LLM request; whether the n-th database statement raises (a lost connection, a
  violated constraint); the database clock; and \<open>random.choice\<close>.
\<close>

record env =
  e_netloc :: "string \<Rightarrow> exn + string"
  e_sha256 :: "string \<Rightarrow> string"
  e_loads :: "string \<Rightarrow> exn + json"
  e_extract :: "extractor \<Rightarrow> string \<Rightarrow> exn + extracted"
  e_llm :: "nat \<Rightarrow> exn + llm_response"
  e_faults :: "nat \<Rightarrow> exn option"
  e_now :: "nat \<Rightarrow> int"
  e_random :: "nat \<Rightarrow> nat"

text \<open>
  A step of a coroutine that uses the session: it returns a value or raises, and leaves
  the session as it is at that moment.
\<close>

type_synonym 'a action = "session \<Rightarrow> (exn + 'a) \<times> session"

definition ret :: "'a \<Rightarrow> 'a action" where
  "ret x = (\<lambda>s. (Inr x, s))"

definition raise :: "exn \<Rightarrow> 'a action" where
  "raise e = (\<lambda>s. (Inl e, s))"

definition lift_exn :: "exn + 'a \<Rightarrow> 'a action" where
  "lift_exn r = (\<lambda>s. (r, s))"

definition bnd :: "'a action \<Rightarrow> ('a \<Rightarrow> 'b action) \<Rightarrow> 'b action" where
  "bnd m f = (\<lambda>s. case m s of (Inl e, s') \<Rightarrow> (Inl e, s') | (Inr x, s') \<Rightarrow> f x s')"

text \<open>\<open>try: m  except Exception as e: h(e)\<close>\<close>

definition catch :: "'a action \<Rightarrow> (exn \<Rightarrow> 'a action) \<Rightarrow> 'a action" where
  "catch m h = (\<lambda>s. case m s of (Inl e, s') \<Rightarrow> h e s' | (Inr x, s') \<Rightarrow> (Inr x, s'))"

definition gets :: "(session \<Rightarrow> 'a) \<Rightarrow> 'a action" where
  "gets f = (\<lambda>s. (Inr (f s), s))"

definition modify :: "(session \<Rightarrow> session) \<Rightarrow> unit action" where
  "modify f = (\<lambda>s. (Inr (), f s))"

text \<open>One statement sent to the database: it raises when the environment says so.\<close>

definition round_trip :: "env \<Rightarrow> unit action" where
  "round_trip env = (\<lambda>s.
     (case e_faults env (round_trips s) of None \<Rightarrow> Inr () | Some e \<Rightarrow> Inl e,
      s\<lparr>round_trips := Suc (round_trips s)\<rparr>))"

text \<open>\<open>await db.execute(select(...))\<close> followed by reading the rows with \<open>f\<close>.\<close>

definition db_select :: "env \<Rightarrow> (tables \<Rightarrow> 'a) \<Rightarrow> 'a action" where
  "db_select env f = bnd (round_trip env) (\<lambda>_. gets (\<lambda>s. f (cur s)))"

definition flush :: "env \<Rightarrow> unit action" where
  "flush env = round_trip env"

definition commit :: "env \<Rightarrow> unit action" where
  "commit env = bnd (round_trip env) (\<lambda>_. modify (\<lambda>s. s\<lparr>com := cur s, commits := Suc (commits s)\<rparr>))"

definition rollback :: "unit action" where
  "rollback = modify (\<lambda>s. s\<lparr>cur := com s\<rparr>)"

definition scalar_one_or_none :: "'a list \<Rightarrow> 'a option action" where
  "scalar_one_or_none rows =
     (case rows of
        [] \<Rightarrow> ret None
      | [x] \<Rightarrow> ret (Some x)
      | _ \<Rightarrow> raise (Exn ''MultipleResultsFound'' ''Multiple rows were found when one or none was required''))"

definition scalar_one :: "'a list \<Rightarrow> 'a action" where
  "scalar_one rows =
     (case rows of
        [] \<Rightarrow> raise (Exn ''NoResultFound'' ''No row was found when one was required'')
      | [x] \<Rightarrow> ret x
      | _ \<Rightarrow> raise (Exn ''MultipleResultsFound'' ''Multiple rows were found when exactly one was required''))"

text \<open>\<open>db.add(row)\<close> for each table; the row takes the next id of its sequence.\<close>

definition add_content_theme :: "int \<Rightarrow> json \<Rightarrow> json \<Rightarrow> unit action" where
  "add_content_theme content_id theme_id confidence =
     modify (\<lambda>s. s\<lparr>cur := (cur s)\<lparr>content_themes := content_themes (cur s) @
                        [\<lparr>ct_id = next_content_theme_id s, ct_content_id = content_id,
                          ct_theme_id = theme_id, ct_confidence = confidence\<rparr>]\<rparr>,
                    next_content_theme_id := next_content_theme_id s + 1\<rparr>)"

definition add_theme :: "theme_row \<Rightarrow> unit action" where
  "add_theme theme =
     modify (\<lambda>s. s\<lparr>cur := (cur s)\<lparr>themes := themes (cur s) @ [theme]\<rparr>,
                    next_theme_id := next_theme_id s + 1\<rparr>)"

definition add_summary :: "summary_row \<Rightarrow> unit action" where
  "add_summary summary =
     modify (\<lambda>s. s\<lparr>cur := (cur s)\<lparr>summaries := summaries (cur s) @ [summary]\<rparr>,
                    next_summary_id := next_summary_id s + 1\<rparr>)"

definition add_content :: "content_row \<Rightarrow> unit action" where
  "add_content content =
     modify (\<lambda>s. s\<lparr>cur := (cur s)\<lparr>contents := contents (cur s) @ [content]\<rparr>,
                    next_content_id := next_content_id s + 1\<rparr>)"

text \<open>One request to the LLM: the environment's outcome for this request number.\<close>

definition llm_request :: "env \<Rightarrow> (exn + llm_response) action" where
  "llm_request env = (\<lambda>s. (Inr (e_llm env (llm_calls s)), s\<lparr>llm_calls := Suc (llm_calls s)\<rparr>))"

section \<open>services/theme\_service.py\<close>

definition THEME_COLORS :: "string list" where
  "THEME_COLORS =
     [''#FF5733'', ''#33FF57'', ''#3357FF'', ''#F333FF'', ''#FF33F3'',
      ''#33FFF3'', ''#F3FF33'', ''#FF8C33'', ''#8C33FF'', ''#33FF8C'',
      ''#FF3383'', ''#33FFA5'', ''#A533FF'', ''#FFA533'', ''#5733FF'']"

definition CONFIDENCE_HIGH :: real where
  "CONFIDENCE_HIGH = 0.75"

definition CONFIDENCE_LOW :: real where
  "CONFIDENCE_LOW = 0.5"

definition BOOTSTRAP_COUNT :: nat where
  "BOOTSTRAP_COUNT = 10"

text \<open>A theme's id as the Python int the service passes around.\<close>

definition id_value :: "int \<Rightarrow> json" where
  "id_value i = JNum (real_of_int i)"

text \<open>\<open>_create_theme(name, description, db)\<close>\<close>

definition create_theme :: "env \<Rightarrow> json \<Rightarrow> json \<Rightarrow> theme_row action" where
  "create_theme env name description =
     bnd (gets (\<lambda>s. \<lparr>t_id = next_theme_id s, t_name = name, t_description = description,
                      t_color = THEME_COLORS ! (e_random env (round_trips s) mod length THEME_COLORS),
                      t_content_count = 1\<rparr>)) (\<lambda>theme.
     bnd (add_theme theme) (\<lambda>_.
     bnd (flush env) (\<lambda>_.
     ret theme)))"

text \<open>The loop of \<open>_bootstrap_themes\<close> over the proposed themes.\<close>

fun bootstrap_loop :: "env \<Rightarrow> json list \<Rightarrow> unit action" where
  "bootstrap_loop env [] = ret ()"
| "bootstrap_loop env (theme_data # rest) =
     bnd (lift_exn (py_getitem theme_data ''name'')) (\<lambda>name.
     bnd (lift_exn (py_get theme_data ''description'' JNull)) (\<lambda>description.
     bnd (create_theme env name description) (\<lambda>theme.
     bootstrap_loop env rest)))"

definition bootstrap_body :: "env \<Rightarrow> unit action" where
  "bootstrap_body env =
     bnd (db_select env (\<lambda>t. take 20 (rev (summaries t)))) (\<lambda>summaries.
     if summaries = [] then ret ()
     else
       bnd (llm_request env) (\<lambda>api_result.
       bnd (lift_exn (ai_bootstrap_themes (e_loads env) api_result)) (\<lambda>themes.
       bnd (lift_exn (py_iter themes)) (\<lambda>theme_datas.
       bnd (bootstrap_loop env theme_datas) (\<lambda>_.
       flush env)))))"

definition bootstrap_themes :: "env \<Rightarrow> unit action" where
  "bootstrap_themes env = catch (bootstrap_body env) (\<lambda>e. ret ())"

text \<open>
  Lines 77-92, the branch taken when no theme exists: up to three themes from the
  summary's own suggestions.
\<close>

fun cold_start_loop :: "env \<Rightarrow> int \<Rightarrow> json list \<Rightarrow> json list \<Rightarrow> json list action" where
  "cold_start_loop env content_id [] assigned_theme_ids = ret assigned_theme_ids"
| "cold_start_loop env content_id (theme_name # rest) assigned_theme_ids =
     bnd (create_theme env theme_name JNull) (\<lambda>theme.
     bnd (add_content_theme content_id (id_value (t_id theme)) (JNum 1.0)) (\<lambda>_.
     cold_start_loop env content_id rest (assigned_theme_ids @ [id_value (t_id theme)])))"

definition cold_start :: "env \<Rightarrow> int \<Rightarrow> dict \<Rightarrow> json list action" where
  "cold_start env content_id summary =
     bnd (lift_exn (py_first3 (dict_get summary ''suggested_themes'' (JArr [])))) (\<lambda>names.
     cold_start_loop env content_id names [])"

text \<open>
  \<open>update(Theme).where(Theme.id == theme_id).values(content_count=Theme.content_count + 1)\<close>
\<close>

definition increment_content_count :: "env \<Rightarrow> json \<Rightarrow> unit action" where
  "increment_content_count env theme_id =
     bnd (round_trip env) (\<lambda>_.
     modify (\<lambda>s. s\<lparr>cur := (cur s)\<lparr>themes :=
        map (\<lambda>t. if id_value (t_id t) = theme_id then t\<lparr>t_content_count := t_content_count t + 1\<rparr> else t)
            (themes (cur s))\<rparr>\<rparr>))"

text \<open>Lines 105-150, the branch taken when themes exist. First the body of the loop over the matches.\<close>

definition process_match :: "env \<Rightarrow> int \<Rightarrow> json \<Rightarrow> json list \<Rightarrow> json list action" where
  "process_match env content_id match assigned_theme_ids =
     bnd (lift_exn (py_get match ''theme_id'' JNull)) (\<lambda>theme_id.
     bnd (lift_exn (py_get match ''confidence'' (JNum 0))) (\<lambda>confidence.
     bnd (lift_exn (py_ge confidence CONFIDENCE_LOW)) (\<lambda>above.
     if above \<and> py_truthy theme_id then
       bnd (add_content_theme content_id theme_id confidence) (\<lambda>_.
       bnd (increment_content_count env theme_id) (\<lambda>_.
       ret (assigned_theme_ids @ [theme_id])))
     else ret assigned_theme_ids)))"

fun match_loop :: "env \<Rightarrow> int \<Rightarrow> json list \<Rightarrow> json list \<Rightarrow> json list action" where
  "match_loop env content_id [] assigned_theme_ids = ret assigned_theme_ids"
| "match_loop env content_id (match # rest) assigned_theme_ids =
     bnd (process_match env content_id match assigned_theme_ids) (\<lambda>assigned.
     match_loop env content_id rest assigned)"

definition new_theme_from_suggestion :: "env \<Rightarrow> int \<Rightarrow> json \<Rightarrow> json list \<Rightarrow> json list action" where
  "new_theme_from_suggestion env content_id new_theme_suggestion assigned_theme_ids =
     (if py_truthy new_theme_suggestion \<and> length assigned_theme_ids = 0 then
        bnd (lift_exn (py_getitem new_theme_suggestion ''name'')) (\<lambda>name.
        bnd (lift_exn (py_get new_theme_suggestion ''description'' JNull)) (\<lambda>description.
        bnd (create_theme env name description) (\<lambda>theme.
        bnd (add_content_theme content_id (id_value (t_id theme)) (JNum 0.9)) (\<lambda>_.
        ret (assigned_theme_ids @ [id_value (t_id theme)])))))
      else ret assigned_theme_ids)"

definition categorize_existing :: "env \<Rightarrow> int \<Rightarrow> dict \<Rightarrow> theme_row list \<Rightarrow> json list action" where
  "categorize_existing env content_id summary existing_themes =
     bnd (llm_request env) (\<lambda>api_result.
     bnd (lift_exn (ai_categorize_content (e_loads env) api_result)) (\<lambda>categorization.
     bnd (lift_exn (py_get categorization ''theme_matches'' (JArr []))) (\<lambda>theme_matches.
     bnd (lift_exn (py_iter theme_matches)) (\<lambda>matches.
     bnd (match_loop env content_id matches []) (\<lambda>assigned.
     bnd (lift_exn (py_get categorization ''new_theme_suggestion'' JNull)) (\<lambda>new_theme_suggestion.
     new_theme_from_suggestion env content_id new_theme_suggestion assigned))))))"

text \<open>Lines 54-72: bootstrap when fewer than five themes exist and enough associations do.\<close>

definition maybe_bootstrap :: "env \<Rightarrow> theme_row list \<Rightarrow> theme_row list action" where
  "maybe_bootstrap env existing_themes =
     (if length existing_themes < 5 then
        bnd (db_select env (\<lambda>t. length (content_themes t))) (\<lambda>content_count.
        if BOOTSTRAP_COUNT \<le> content_count then
          bnd (bootstrap_themes env) (\<lambda>_.
          db_select env themes)
        else ret existing_themes)
      else ret existing_themes)"

definition categorize_body :: "env \<Rightarrow> int \<Rightarrow> dict \<Rightarrow> json list action" where
  "categorize_body env content_id summary =
     bnd (db_select env themes) (\<lambda>existing_themes0.
     bnd (maybe_bootstrap env existing_themes0) (\<lambda>existing_themes.
     bnd (if existing_themes = [] then cold_start env content_id summary
          else categorize_existing env content_id summary existing_themes) (\<lambda>assigned_theme_ids.
     bnd (flush env) (\<lambda>_.
     ret assigned_theme_ids))))"

definition categorize_content :: "env \<Rightarrow> int \<Rightarrow> dict \<Rightarrow> json list action" where
  "categorize_content env content_id summary =
     catch (categorize_body env content_id summary) (\<lambda>e. ret [])"

section \<open>services/content\_processor.py\<close>

text \<open>The result envelope of \<open>_get_content_details\<close>.\<close>

record envelope =
  r_content_id :: int
  r_title :: string
  r_author :: "string option"
  r_source_type :: string
  r_source_url :: "string option"
  r_created_at :: "int option"
  r_summary :: "(json \<times> json \<times> json) option"
  r_themes :: "(json \<times> json) list"

definition details_of :: "content_row \<Rightarrow> summary_row option \<Rightarrow> content_theme_row list \<Rightarrow> envelope" where
  "details_of content summary content_themes' =
     \<lparr>r_content_id = c_id content,
      r_title = c_title content,
      r_author = c_author content,
      r_source_type = c_source_type content,
      r_source_url = c_source_url content,
      r_created_at = Some (c_created_at content),
      r_summary = (case summary of None \<Rightarrow> None
                   | Some sm \<Rightarrow> Some (s_overview sm, s_key_insights sm, s_implications sm)),
      r_themes = map (\<lambda>ct. (ct_theme_id ct, ct_confidence ct)) content_themes'\<rparr>"

definition get_content_details :: "env \<Rightarrow> int \<Rightarrow> envelope action" where
  "get_content_details env content_id =
     bnd (db_select env (\<lambda>t. filter (\<lambda>c. c_id c = content_id) (contents t))) (\<lambda>rows.
     bnd (scalar_one rows) (\<lambda>content.
     bnd (db_select env (\<lambda>t. filter (\<lambda>sm. s_content_id sm = content_id) (summaries t))) (\<lambda>srows.
     bnd (scalar_one_or_none srows) (\<lambda>summary.
     bnd (db_select env (\<lambda>t. filter (\<lambda>ct. ct_content_id ct = content_id) (content_themes t))) (\<lambda>cts.
     ret (details_of content summary cts))))))"

text \<open>\<open>extractor_factory.extract(source, is_file)\<close>\<close>

definition factory_extract :: "env \<Rightarrow> string \<Rightarrow> bool \<Rightarrow> exn + extracted" where
  "factory_extract env source is_file =
     ebind (get_extractor (e_netloc env) source is_file) (\<lambda>extractor. e_extract env extractor source)"

text \<open>\<open>ai_service.generate_summary(content=..., metadata=...)\<close>, of the default comprehensive type.\<close>

definition ai_generate_summary :: "env \<Rightarrow> dict action" where
  "ai_generate_summary env =
     bnd (llm_request env) (\<lambda>api_result.
     lift_exn (generate_summary (e_loads env) api_result ''comprehensive''))"

text \<open>Step 3: the Content row, then \<open>db.add(content); await db.flush()\<close>.\<close>

definition create_content ::
  "env \<Rightarrow> string \<Rightarrow> string option \<Rightarrow> string option \<Rightarrow> extracted \<Rightarrow> string \<Rightarrow> content_row action" where
  "create_content env source_type source_url file_path extracted content_hash =
     bnd (gets (\<lambda>s. \<lparr>c_id = next_content_id s,
                      c_source_type = source_type,
                      c_source_url = source_url,
                      c_file_path = file_path,
                      c_title = ex_title extracted,
                      c_author = ex_author extracted,
                      c_publish_date = ex_publish_date extracted,
                      c_raw_content = ex_content extracted,
                      c_content_hash = content_hash,
                      c_extraction_metadata = ex_metadata extracted,
                      c_created_at = e_now env (round_trips s)\<rparr>)) (\<lambda>content.
     bnd (add_content content) (\<lambda>_.
     bnd (flush env) (\<lambda>_.
     ret content)))"

text \<open>Step 4, second half: the Summary row, then \<open>db.add(summary); await db.flush()\<close>.\<close>

definition create_summary :: "env \<Rightarrow> int \<Rightarrow> dict \<Rightarrow> unit action" where
  "create_summary env content_id summary_data =
     bnd (lift_exn (dict_getitem summary_data ''overview'')) (\<lambda>overview.
     bnd (gets (\<lambda>s. \<lparr>s_id = next_summary_id s,
                      s_content_id = content_id,
                      s_overview = overview,
                      s_key_insights = dict_get summary_data ''key_insights'' (JArr []),
                      s_implications = dict_get summary_data ''implications'' JNull,
                      s_model_version = dict_get summary_data ''model_version'' JNull,
                      s_token_count = dict_get summary_data ''token_count'' JNull\<rparr>)) (\<lambda>summary.
     bnd (add_summary summary) (\<lambda>_.
     flush env)))"

text \<open>
  The \<open>try\<close> body shared by \<open>process_url\<close> and \<open>process_file\<close>. The two differ in the
  \<open>is_file\<close> flag, in the metadata dict given to the hash (\<open>metadata_for\<close>, applied to the
  title) and in which of \<open>source_url\<close> and \<open>file_path\<close> the new row sets.
  First steps 3 to 5, for content that is not in the store yet.
\<close>

definition process_new ::
  "env \<Rightarrow> string \<Rightarrow> bool \<Rightarrow> string option \<Rightarrow> string option \<Rightarrow> extracted \<Rightarrow> string
     \<Rightarrow> content_row action" where
  "process_new env source is_file source_url file_path extracted content_hash =
     bnd (lift_exn (get_extractor (e_netloc env) source is_file)) (\<lambda>extractor.
     bnd (create_content env (get_source_type extractor) source_url file_path
            extracted content_hash) (\<lambda>content.
     bnd (ai_generate_summary env) (\<lambda>summary_data.
     bnd (create_summary env (c_id content) summary_data) (\<lambda>_.
     bnd (categorize_content env (c_id content) summary_data) (\<lambda>theme_ids.
     ret content)))))"

text \<open>\<open>await db.commit(); await db.refresh(content); return await self._get_content_details(content.id, db)\<close>\<close>

definition commit_and_return :: "env \<Rightarrow> content_row \<Rightarrow> envelope action" where
  "commit_and_return env content =
     bnd (commit env) (\<lambda>_.
     bnd (round_trip env) (\<lambda>_.
     get_content_details env (c_id content)))"

definition process_body ::
  "env \<Rightarrow> string \<Rightarrow> bool \<Rightarrow> (string \<Rightarrow> (string \<times> string) list option) \<Rightarrow> string option \<Rightarrow> string option
     \<Rightarrow> envelope action" where
  "process_body env source is_file metadata_for source_url file_path =
     bnd (lift_exn (factory_extract env source is_file)) (\<lambda>extracted.
     let content_hash = generate_content_hash (e_sha256 env) (ex_content extracted)
                          (metadata_for (ex_title extracted)) in
     bnd (db_select env (\<lambda>t. filter (\<lambda>c. c_content_hash c = content_hash) (contents t))) (\<lambda>rows.
     bnd (scalar_one_or_none rows) (\<lambda>existing_content.
     case existing_content of
       Some existing \<Rightarrow> get_content_details env (c_id existing)
     | None \<Rightarrow>
         bnd (process_new env source is_file source_url file_path extracted content_hash)
             (commit_and_return env))))"

text \<open>\<open>except Exception as e: await db.rollback(); raise Exception(f"...: {str(e)}")\<close>\<close>

definition rollback_and_wrap :: "string \<Rightarrow> exn \<Rightarrow> 'a action" where
  "rollback_and_wrap prefix e = bnd rollback (\<lambda>_. raise (wrap_exn prefix e))"

definition process_url :: "env \<Rightarrow> string \<Rightarrow> envelope action" where
  "process_url env url =
     catch (process_body env url False (url_metadata url) (Some url) None)
           (rollback_and_wrap ''Failed to process URL: '')"

definition process_file :: "env \<Rightarrow> string \<Rightarrow> string \<Rightarrow> envelope action" where
  "process_file env file_path original_filename =
     catch (process_body env file_path True (file_metadata original_filename) None (Some file_path))
           (rollback_and_wrap ''Failed to process file: '')"

text \<open>An empty database and a fresh session on it.\<close>

definition empty_tables :: tables where
  "empty_tables = \<lparr>contents = [], summaries = [], themes = [], content_themes = []\<rparr>"

definition fresh_session :: session where
  "fresh_session =
     \<lparr>cur = empty_tables, com = empty_tables, next_content_id = 1, next_summary_id = 1,
      next_theme_id = 1, next_content_theme_id = 1, round_trips = 0, commits = 0, llm_calls = 0\<rparr>"

section \<open>Example inputs\<close>

text \<open>A \<open>json.loads\<close> that rejects every text.\<close>

definition no_json :: "string \<Rightarrow> exn + json" where
  "no_json text = Inl (Exn ''JSONDecodeError'' ''Expecting value'')"

text \<open>A \<open>json.loads\<close> that knows three texts: a summary and two categorizations.\<close>

definition example_loads :: "string \<Rightarrow> exn + json" where
  "example_loads text =
     (if text = ''summary'' then
        Inr (JObj [(''overview'', JStr ''An overview''),
                   (''key_insights'', JArr [JStr ''An insight'']),
                   (''suggested_themes'', JArr [JStr ''A'', JStr ''B'', JStr ''C'', JStr ''D''])])
      else if text = ''gated'' then
        Inr (JObj [(''theme_matches'',
                     JArr [JObj [(''theme_id'', JNum 1), (''confidence'', JNum 0.5)],
                           JObj [(''theme_id'', JNum 1), (''confidence'', JNum 0.499)]]),
                   (''new_theme_suggestion'', JObj [(''name'', JStr ''Robotics'')])])
      else if text = ''no id'' then
        Inr (JObj [(''theme_matches'', JArr [JObj [(''confidence'', JNum 0.8)]]),
                   (''new_theme_suggestion'', JObj [(''name'', JStr ''Robotics'')])])
      else Inl (Exn ''JSONDecodeError'' ''Expecting value''))"

definition example_extracted :: extracted where
  "example_extracted =
     \<lparr>ex_title = ''Title'', ex_author = None, ex_publish_date = None,
      ex_content = ''Some  Body'', ex_metadata = JObj []\<rparr>"

text \<open>
  An environment without faults, in which every LLM request is answered with \<open>reply\<close>
  and the digest is the identity.
\<close>

definition example_env :: "string \<Rightarrow> env" where
  "example_env reply =
     \<lparr>e_netloc = urlsplit_netloc,
      e_sha256 = (\<lambda>x. x),
      e_loads = example_loads,
      e_extract = (\<lambda>x source. Inr example_extracted),
      e_llm = (\<lambda>n. Inr \<lparr>content_texts = [reply], output_tokens = 5\<rparr>),
      e_faults = (\<lambda>n. None),
      e_now = (\<lambda>n. 100),
      e_random = (\<lambda>n. n)\<rparr>"

text \<open>The same, with the LLM out of service.\<close>

definition llm_down_env :: env where
  "llm_down_env = (example_env [])\<lparr>e_llm := (\<lambda>n. Inl (Exn ''APIError'' ''overloaded''))\<rparr>"

text \<open>The same, with the database failing at statement number \<open>k\<close>.\<close>

definition faulty_env :: "nat \<Rightarrow> env" where
  "faulty_env k =
     (example_env ''summary'')\<lparr>e_faults := (\<lambda>n. if n = k then Some (Exn ''OSError'' ''connection lost'') else None)\<rparr>"




text \<open>
  A session on a store that holds one submission of \<open>http://a.b/c\<close>: its content row,
  its summary, three themes and their associations; and the envelope of that content.
\<close>

definition first_content :: content_row where
  "first_content =
     \<lparr>c_id = 1, c_source_type = ''web'', c_source_url = Some ''http://a.b/c'', c_file_path = None,
      c_title = ''Title'', c_author = None, c_publish_date = None, c_raw_content = ''Some  Body'',
      c_content_hash = ''some body|http://a.b/c|Title'', c_extraction_metadata = JObj [],
      c_created_at = 100\<rparr>"

definition first_tables :: tables where
  "first_tables =
     \<lparr>contents = [first_content],
      summaries = [\<lparr>s_id = 1, s_content_id = 1, s_overview = JStr ''An overview'',
                    s_key_insights = JArr [JStr ''An insight''], s_implications = JNull,
                    s_model_version = JStr ''claude-sonnet-4-5-20250929'', s_token_count = JNum 5\<rparr>],
      themes = [\<lparr>t_id = 1, t_name = JStr ''A'', t_description = JNull, t_color = ''#33FFF3'',
                 t_content_count = 1\<rparr>,
                \<lparr>t_id = 2, t_name = JStr ''B'', t_description = JNull, t_color = ''#F3FF33'',
                 t_content_count = 1\<rparr>,
                \<lparr>t_id = 3, t_name = JStr ''C'', t_description = JNull, t_color = ''#FF8C33'',
                 t_content_count = 1\<rparr>],
      content_themes = [\<lparr>ct_id = 1, ct_content_id = 1, ct_theme_id = JNum 1, ct_confidence = JNum 1\<rparr>,
                        \<lparr>ct_id = 2, ct_content_id = 1, ct_theme_id = JNum 2, ct_confidence = JNum 1\<rparr>,
                        \<lparr>ct_id = 3, ct_content_id = 1, ct_theme_id = JNum 3, ct_confidence = JNum 1\<rparr>]\<rparr>"

definition after_first_submission :: session where
  "after_first_submission =
     \<lparr>cur = first_tables, com = first_tables, next_content_id = 2, next_summary_id = 2,
      next_theme_id = 4, next_content_theme_id = 4, round_trips = 14, commits = 1, llm_calls = 1\<rparr>"

definition example_envelope :: envelope where
  "example_envelope =
     \<lparr>r_content_id = 1, r_title = ''Title'', r_author = None, r_source_type = ''web'',
      r_source_url = Some ''http://a.b/c'', r_created_at = Some 100,
      r_summary = Some (JStr ''An overview'', JArr [JStr ''An insight''], JNull),
      r_themes = [(JNum 1, JNum 1), (JNum 2, JNum 1), (JNum 3, JNum 1)]\<rparr>"

section \<open>Notions used to state and prove the properties\<close>

text \<open>\<open>preserves R m\<close>: every run of \<open>m\<close>, whether it returns or raises, relates the session before to the session after by \<open>R\<close>.\<close>

definition preserves :: "(session \<Rightarrow> session \<Rightarrow> bool) \<Rightarrow> 'a action \<Rightarrow> bool" where
  "preserves R m = (\<forall>s r s'. m s = (r, s') \<longrightarrow> R s s')"

text \<open>Nothing was written: the open transaction and the committed store are as before.\<close>

definition reads_only :: "session \<Rightarrow> session \<Rightarrow> bool" where
  "reads_only s s' =
     (cur s' = cur s \<and> com s' = com s \<and> commits s' = commits s \<and> llm_calls s' = llm_calls s
      \<and> next_content_id s' = next_content_id s \<and> next_summary_id s' = next_summary_id s)"

text \<open>No commit happened: the committed store is as before.\<close>

definition no_commit :: "session \<Rightarrow> session \<Rightarrow> bool" where
  "no_commit s s' = (com s' = com s \<and> commits s' = commits s)"

text \<open>The content and summary tables of the open transaction are as before, and no commit happened.\<close>

definition same_contents :: "session \<Rightarrow> session \<Rightarrow> bool" where
  "same_contents s s' =
     (contents (cur s') = contents (cur s) \<and> summaries (cur s') = summaries (cur s)
      \<and> com s' = com s \<and> commits s' = commits s
      \<and> next_content_id s' = next_content_id s \<and> next_summary_id s' = next_summary_id s)"

text \<open>
  What the schema and the sequences guarantee of the store a session sees: content ids
  and content hashes are unique, no content has two summaries, every content has a
  summary, and the ids in use lie below the content sequence.
\<close>

definition store_ok :: "session \<Rightarrow> bool" where
  "store_ok s =
     (distinct (map c_id (contents (cur s)))
      \<and> distinct (map c_content_hash (contents (cur s)))
      \<and> distinct (map s_content_id (summaries (cur s)))
      \<and> set (map c_id (contents (cur s))) \<subseteq> set (map s_content_id (summaries (cur s)))
      \<and> list_all (\<lambda>c. c_id c < next_content_id s) (contents (cur s))
      \<and> list_all (\<lambda>sm. s_content_id sm < next_content_id s) (summaries (cur s)))"

text \<open>
  The envelope that \<open>_get_content_details\<close> builds for a content row from the tables:
  the row's own fields, its summary if it has one, and its theme associations.
\<close>

definition envelope_of :: "tables \<Rightarrow> content_row \<Rightarrow> envelope" where
  "envelope_of t content =
     details_of content
       (case filter (\<lambda>sm. s_content_id sm = c_id content) (summaries t) of
          [] \<Rightarrow> None | sm # _ \<Rightarrow> Some sm)
       (filter (\<lambda>ct. ct_content_id ct = c_id content) (content_themes t))"

section \<open>Properties of the deduplication hash\<close>

lemma url_hash_input:
  "hash_input content (url_metadata url title) = normalize_content content @ ''|'' @ url @ ''|'' @ title"
  by (simp add: hash_input_def url_metadata_def dict_get_def)

lemma file_hash_input:
  "hash_input content (file_metadata original_filename title) = normalize_content content @ ''||'' @ title"
  by (simp add: hash_input_def file_metadata_def dict_get_def)

text \<open>
  C1. The claim says that the hash of a file submission is the digest of the normalized
  content, \<open>|\<close>, the original filename, \<open>|\<close> and the title. \<open>process_file\<close> passes the
  filename under the key \<open>file\<close>, but \<open>generate_content_hash\<close> reads the key \<open>url\<close>,
  so the filename never reaches the digest: the hashed text is the normalized content,
  \<open>||\<close> and the title, and two uploads that differ only in their filename get the same
  hash.
\<close>

theorem file_hash_ignores_label:
  "generate_content_hash H content (file_metadata original_filename title)
     = H (normalize_content content @ ''||'' @ title)
   \<and> generate_content_hash H content (file_metadata ''a.pdf'' title)
     = generate_content_hash H content (file_metadata ''b.pdf'' title)"
  by (simp add: generate_content_hash_def file_hash_input)

section \<open>Properties of the extraction router\<close>

lemma first_capable_None:
  "first_capable nl xs src f = None \<longleftrightarrow> (\<forall>y\<in>set xs. can_handle nl y src f \<noteq> Inr True)"
  by (induction xs) (auto split: sum.splits bool.splits)

lemma first_capable_Some:
  "first_capable nl xs src f = Some x \<longleftrightarrow>
     (\<exists>pre post. xs = pre @ x # post \<and> can_handle nl x src f = Inr True
        \<and> (\<forall>y\<in>set pre. can_handle nl y src f \<noteq> Inr True))"
proof (induction xs)
  case Nil
  then show ?case by simp
next
  case (Cons a xs)
  show ?case
  proof (cases "can_handle nl a src f = Inr True")
    case True
    have "(\<exists>pre post. a # xs = pre @ x # post \<and> can_handle nl x src f = Inr True
        \<and> (\<forall>y\<in>set pre. can_handle nl y src f \<noteq> Inr True)) \<longleftrightarrow> a = x"
    proof
      assume "\<exists>pre post. a # xs = pre @ x # post \<and> can_handle nl x src f = Inr True
        \<and> (\<forall>y\<in>set pre. can_handle nl y src f \<noteq> Inr True)"
      then obtain pre post where h: "a # xs = pre @ x # post" "\<forall>y\<in>set pre. can_handle nl y src f \<noteq> Inr True"
        by blast
      show "a = x"
      proof (cases pre)
        case Nil
        with h show ?thesis by simp
      next
        case (Cons b pre')
        with h True show ?thesis by auto
      qed
    next
      assume "a = x"
      with True have "a # xs = [] @ x # xs \<and> can_handle nl x src f = Inr True \<and> (\<forall>y\<in>set []. can_handle nl y src f \<noteq> Inr True)"
        by simp
      then show "\<exists>pre post. a # xs = pre @ x # post \<and> can_handle nl x src f = Inr True
        \<and> (\<forall>y\<in>set pre. can_handle nl y src f \<noteq> Inr True)" by blast
    qed
    with True show ?thesis by simp
  next
    case False
    then have step: "first_capable nl (a # xs) src f = first_capable nl xs src f"
      by (auto split: sum.splits bool.splits)
    have "(\<exists>pre post. a # xs = pre @ x # post \<and> can_handle nl x src f = Inr True
        \<and> (\<forall>y\<in>set pre. can_handle nl y src f \<noteq> Inr True)) \<longleftrightarrow>
          (\<exists>pre post. xs = pre @ x # post \<and> can_handle nl x src f = Inr True
        \<and> (\<forall>y\<in>set pre. can_handle nl y src f \<noteq> Inr True))" (is "?L \<longleftrightarrow> ?R")
    proof
      assume ?L
      then obtain pre post where h: "a # xs = pre @ x # post" "can_handle nl x src f = Inr True"
         "\<forall>y\<in>set pre. can_handle nl y src f \<noteq> Inr True" by blast
      show ?R
      proof (cases pre)
        case Nil
        with h False show ?thesis by simp
      next
        case (Cons b pre')
        with h have "xs = pre' @ x # post \<and> can_handle nl x src f = Inr True \<and> (\<forall>y\<in>set pre'. can_handle nl y src f \<noteq> Inr True)"
          by simp
        then show ?thesis by blast
      qed
    next
      assume ?R
      then obtain pre post where h: "xs = pre @ x # post" "can_handle nl x src f = Inr True"
         "\<forall>y\<in>set pre. can_handle nl y src f \<noteq> Inr True" by blast
      with False have "a # xs = (a # pre) @ x # post \<and> can_handle nl x src f = Inr True \<and> (\<forall>y\<in>set (a # pre). can_handle nl y src f \<noteq> Inr True)"
        by simp
      then show ?L by blast
    qed
    with step Cons.IH show ?thesis by simp
  qed
qed

lemma get_extractor_Inr:
  "get_extractor nl src f = Inr x \<longleftrightarrow> first_capable nl extractors src f = Some x"
  by (simp add: get_extractor_def split: option.splits)

lemma route_twitter:
  "\<not> f \<Longrightarrow> detect_content_type nl src = Inr ''twitter'' \<Longrightarrow> get_extractor nl src f = Inr TwitterExtractor"
  by (simp add: get_extractor_def extractors_def url_type_is_def)

lemma route_arxiv:
  "\<not> f \<Longrightarrow> detect_content_type nl src = Inr ''arxiv'' \<Longrightarrow> get_extractor nl src f = Inr ArxivExtractor"
  by (simp add: get_extractor_def extractors_def url_type_is_def)

lemma route_acm:
  "\<not> f \<Longrightarrow> detect_content_type nl src = Inr ''acm'' \<Longrightarrow> get_extractor nl src f = Inr ACMExtractor"
  by (simp add: get_extractor_def extractors_def url_type_is_def)

lemma route_web:
  assumes "\<not> f" "startswith src ''http://'' \<or> startswith src ''https://''"
    "detect_content_type nl src \<noteq> Inr ''twitter''" "detect_content_type nl src \<noteq> Inr ''arxiv''"
    "detect_content_type nl src \<noteq> Inr ''acm''"
  shows "get_extractor nl src f = Inr WebExtractor"
  using assms
  by (cases "detect_content_type nl src") (auto simp: get_extractor_def extractors_def url_type_is_def)

lemma route_file_rejected:
  "f \<Longrightarrow> \<not> endswith (py_lower src) ''.pdf'' \<Longrightarrow>
     get_extractor nl src f = Inl (Exn ''ValueError'' (''No suitable extractor found for source: '' @ take 100 src))"
  by (simp add: get_extractor_def extractors_def)

text \<open>
  C8. \<open>get_extractor\<close> returns the first candidate, in the fixed order twitter, arxiv,
  acm, pdf, web, whose \<open>can_handle\<close> is true. A URL that \<open>detect_content_type\<close> classifies
  as twitter, arxiv or acm goes to that extractor and not to the web fallback; an
  \<open>http://\<close> or \<open>https://\<close> URL with no such classification goes to the web extractor;
  and a file path that does not end in \<open>.pdf\<close> (in any letter case) matches no extractor,
  so that routing raises ValueError with the first 100 characters of the source.
\<close>

theorem get_extractor_routing:
  "(get_extractor nl source is_file = Inr x \<longleftrightarrow>
      (\<exists>pre post. [TwitterExtractor, ArxivExtractor, ACMExtractor, PDFExtractor, WebExtractor] = pre @ x # post
         \<and> can_handle nl x source is_file = Inr True
         \<and> (\<forall>y\<in>set pre. can_handle nl y source is_file \<noteq> Inr True)))
   \<and> (\<not> is_file \<and> detect_content_type nl source = Inr ''twitter''
        \<longrightarrow> get_extractor nl source is_file = Inr TwitterExtractor)
   \<and> (\<not> is_file \<and> detect_content_type nl source = Inr ''arxiv''
        \<longrightarrow> get_extractor nl source is_file = Inr ArxivExtractor)
   \<and> (\<not> is_file \<and> detect_content_type nl source = Inr ''acm''
        \<longrightarrow> get_extractor nl source is_file = Inr ACMExtractor)
   \<and> (\<not> is_file \<and> (startswith source ''http://'' \<or> startswith source ''https://'')
        \<and> detect_content_type nl source \<noteq> Inr ''twitter''
        \<and> detect_content_type nl source \<noteq> Inr ''arxiv''
        \<and> detect_content_type nl source \<noteq> Inr ''acm''
        \<longrightarrow> get_extractor nl source is_file = Inr WebExtractor)
   \<and> (is_file \<and> \<not> endswith (py_lower source) ''.pdf''
        \<longrightarrow> get_extractor nl source is_file
             = Inl (Exn ''ValueError'' (''No suitable extractor found for source: '' @ take 100 source)))"
proof -
  have a: "get_extractor nl source is_file = Inr x \<longleftrightarrow>
      (\<exists>pre post. [TwitterExtractor, ArxivExtractor, ACMExtractor, PDFExtractor, WebExtractor] = pre @ x # post
         \<and> can_handle nl x source is_file = Inr True
         \<and> (\<forall>y\<in>set pre. can_handle nl y source is_file \<noteq> Inr True))"
    unfolding get_extractor_Inr first_capable_Some by (simp only: extractors_def)
  show ?thesis
    using a route_twitter[of is_file nl source] route_arxiv[of is_file nl source]
      route_acm[of is_file nl source] route_web[of is_file source nl]
      route_file_rejected[of is_file source nl]
    by blast
qed

lemma twitter_example: "detect_content_type urlsplit_netloc ''https://Twitter.com/user/status/42'' = Inr ''twitter''"
  by code_simp

lemma web_example: "detect_content_type urlsplit_netloc ''https://example.com/post'' = Inr ''web''"
  by code_simp

theorem get_extractor_routing_witness:
  "get_extractor urlsplit_netloc ''https://Twitter.com/user/status/42'' False = Inr TwitterExtractor
   \<and> get_extractor urlsplit_netloc ''https://example.com/post'' False = Inr WebExtractor
   \<and> get_extractor urlsplit_netloc ''/uploads/notes.txt'' True
       = Inl (Exn ''ValueError'' ''No suitable extractor found for source: /uploads/notes.txt'')"
  using get_extractor_routing[of urlsplit_netloc "''https://Twitter.com/user/status/42''" False TwitterExtractor]
        get_extractor_routing[of urlsplit_netloc "''https://example.com/post''" False WebExtractor]
        get_extractor_routing[of urlsplit_netloc "''/uploads/notes.txt''" True PDFExtractor]
        twitter_example web_example
  by (simp add: endswith_def py_lower_def lower_char_def)

section \<open>Properties of the rate limiter\<close>

lemma evict_length: "length (evict b xs) \<le> length xs"
  by (induction xs) auto

lemma evict_head: "evict b xs = r # rs \<Longrightarrow> b < r"
  by (induction xs) (auto split: if_splits)

lemma evict_drops_expired_head: "r \<le> b \<Longrightarrow> length (evict b (r # rs)) \<le> length rs"
  by (simp add: evict_length)

lemma evict_suffix: "\<exists>j\<le>length xs. evict b xs = drop j xs \<and> (\<forall>r\<in>set (take j xs). r \<le> b)"
proof (induction xs)
  case Nil
  then show ?case by simp
next
  case (Cons x xs)
  show ?case
  proof (cases "x \<le> b")
    case True
    from Cons obtain j where "j \<le> length xs" "evict b xs = drop j xs" "\<forall>r\<in>set (take j xs). r \<le> b"
      by blast
    with True have "Suc j \<le> length (x # xs) \<and> evict b (x # xs) = drop (Suc j) (x # xs) \<and> (\<forall>r\<in>set (take (Suc j) (x # xs)). r \<le> b)"
      by simp
    then show ?thesis by blast
  next
    case False
    then have "0 \<le> length (x # xs) \<and> evict b (x # xs) = drop 0 (x # xs) \<and> (\<forall>r\<in>set (take 0 (x # xs)). r \<le> b)"
      by simp
    then show ?thesis by blast
  qed
qed

lemma evict_evict: "b1 \<le> b2 \<Longrightarrow> evict b2 (evict b1 xs) = evict b2 xs"
  by (induction xs) auto

lemma in_window_le_evict: "length (filter (\<lambda>r. b < r) xs) \<le> length (evict b xs)"
proof (induction xs)
  case Nil
  then show ?case by simp
next
  case (Cons x xs)
  show ?case
  proof (cases "x \<le> b")
    case True
    with Cons show ?thesis by simp
  next
    case False
    have "length (filter (\<lambda>r. b < r) (x # xs)) \<le> length (x # xs)"
      by (rule length_filter_le)
    with False show ?thesis by simp
  qed
qed

lemma expired_not_in_window: "\<forall>r\<in>set xs. r \<le> (b::real) \<Longrightarrow> filter (\<lambda>r. b < r) xs = []"
  by (induction xs) auto

text \<open>
  The admitted timestamps so far are \<open>history\<close>; the queue is what is left of it after
  dropping the evicted prefix.
\<close>

lemma admit_count:
  fixes b :: real
  assumes q: "q = drop k history"
    and old: "\<forall>r\<in>set (take k history). r \<le> b0"
    and b: "b0 \<le> b"
  shows "length (filter (\<lambda>r. b < r) history) \<le> length (evict b q)"
proof -
  have h: "history = take k history @ q" using q by simp
  have "filter (\<lambda>r. b < r) (take k history) = []"
    using old b by (intro expired_not_in_window) force
  then have "filter (\<lambda>r. b < r) history = filter (\<lambda>r. b < r) q"
    by (subst h) simp
  then show ?thesis
    by (simp add: in_window_le_evict)
qed

lemma admit_suffix:
  fixes b :: real
  assumes q: "q = drop k history"
    and old: "\<forall>r\<in>set (take k history). r \<le> b0"
    and b: "b0 \<le> b"
  shows "\<exists>k'. evict b q @ [t] = drop k' (history @ [t]) \<and> (\<forall>r\<in>set (take k' (history @ [t])). r \<le> b)"
proof -
  obtain j where j: "j \<le> length q" "evict b q = drop j q" "\<forall>r\<in>set (take j q). r \<le> b"
    using evict_suffix by blast
  show ?thesis
  proof (cases "k \<le> length history")
    case True
    with j q have le: "k + j \<le> length history" by simp
    have e: "evict b q @ [t] = drop (k + j) (history @ [t])"
      using j q le by (simp add: add.commute)
    have "take (k + j) history = take k history @ take j q"
      using q by (simp add: take_add)
    then have "\<forall>r\<in>set (take (k + j) (history @ [t])). r \<le> b"
      using le old b j by force
    with e show ?thesis by blast
  next
    case False
    then have "q = []" using q by simp
    then have e: "evict b q @ [t] = drop (length history) (history @ [t])" by simp
    have "take k history = history" using False by simp
    then have "\<forall>r\<in>set (take (length history) (history @ [t])). r \<le> b"
      using old b by force
    with e show ?thesis by blast
  qed
qed

lemma acquire_unfold:
  "acquire t1 t2 rl =
     (let W = real_of_int (time_window rl); reqs1 = evict (t1 - W) (requests rl) in
      if max_requests rl \<le> int (length reqs1) then
        (if reqs1 = [] then Inl (Exn ''IndexError'' ''deque index out of range'')
         else Inr (Some (W - (t1 - hd reqs1)), rl\<lparr>requests := evict (t2 - W) reqs1 @ [t2]\<rparr>))
      else Inr (None, rl\<lparr>requests := reqs1 @ [t1]\<rparr>))"
proof (cases "evict (t1 - real_of_int (time_window rl)) (requests rl)")
  case Nil
  then show ?thesis by (simp add: acquire_def)
next
  case (Cons r0 rs)
  from evict_head[OF Cons] have "0 < real_of_int (time_window rl) - (t1 - r0)" by simp
  with Cons show ?thesis by (simp add: acquire_def Let_def)
qed




text \<open>
  C10, as amended. Provided the clock read after the sleep has advanced by at least the
  time slept, \<open>acquire\<close> preserves "the queue holds at most \<open>max_requests\<close> timestamps":
  when the queue is full the time to sleep is positive, and the oldest timestamp is then
  evicted before the new one is appended. Moreover, writing \<open>history\<close> for all the
  timestamps admitted so far (the queue is \<open>history\<close> without an evicted prefix that has
  left the window), fewer than \<open>max_requests\<close> of them lie in the window that ends at the
  moment of the new admission, and the same relation between queue and history holds
  again afterwards.
  The claim as stated (the eviction after the sleep is guaranteed) fails when the clock
  read after the sleep is behind: \<open>acquire\<close> reads \<open>time.time()\<close> once after
  \<open>asyncio.sleep\<close> and appends without looking at the length again.
\<close>

theorem acquire_keeps_capacity:
  assumes inv: "int (length (requests rl)) \<le> max_requests rl"
    and q: "requests rl = drop k history"
    and old: "\<forall>r\<in>set (take k history). r \<le> t1 - real_of_int (time_window rl)"
    and ran: "acquire t1 t2 rl = Inr (slept, rl')"
    and clock: "\<forall>w. slept = Some w \<longrightarrow> t1 + w \<le> t2"
  shows "int (length (requests rl')) \<le> max_requests rl'
       \<and> (\<forall>w. slept = Some w \<longrightarrow> 0 < w)
       \<and> (\<exists>t earlier. requests rl' = earlier @ [t]
            \<and> t = (case slept of None \<Rightarrow> t1 | Some w \<Rightarrow> t2)
            \<and> int (length (filter (\<lambda>r. t - real_of_int (time_window rl) < r) history)) < max_requests rl
            \<and> (\<exists>k'. requests rl' = drop k' (history @ [t])
                 \<and> (\<forall>r\<in>set (take k' (history @ [t])). r \<le> t - real_of_int (time_window rl))))"
proof -
  define W where "W = real_of_int (time_window rl)"
  define reqs1 where "reqs1 = evict (t1 - W) (requests rl)"
  have len1: "length reqs1 \<le> length (requests rl)" unfolding reqs1_def by (rule evict_length)
  from old have old': "\<forall>r\<in>set (take k history). r \<le> t1 - W" by (simp add: W_def)
  show ?thesis
  proof (cases "max_requests rl \<le> int (length reqs1)")
    case False
    with ran have s: "slept = None" and r: "rl' = rl\<lparr>requests := reqs1 @ [t1]\<rparr>"
      by (auto simp: acquire_unfold Let_def W_def reqs1_def)
    have cnt: "length (filter (\<lambda>r. t1 - W < r) history) \<le> length reqs1"
      unfolding reqs1_def by (rule admit_count[OF q old']) simp
    have ex: "\<exists>k'. reqs1 @ [t1] = drop k' (history @ [t1]) \<and> (\<forall>r\<in>set (take k' (history @ [t1])). r \<le> t1 - W)"
      unfolding reqs1_def by (rule admit_suffix[OF q old']) simp
    from False cnt have "int (length (filter (\<lambda>r. t1 - W < r) history)) < max_requests rl" by simp
    with False s r ex show ?thesis
      by (simp add: W_def)
  next
    case True
    with inv len1 have full: "int (length reqs1) = max_requests rl" by simp
    show ?thesis
    proof (cases reqs1)
      case Nil
      with True ran show ?thesis
        by (simp add: acquire_unfold Let_def W_def reqs1_def)
    next
      case (Cons r0 rs)
      define w where "w = W - (t1 - r0)"
      from Cons True ran have s: "slept = Some w" and r: "rl' = rl\<lparr>requests := evict (t2 - W) reqs1 @ [t2]\<rparr>"
        by (auto simp: acquire_unfold Let_def W_def reqs1_def w_def)
      from Cons have "t1 - W < r0" unfolding reqs1_def by (rule evict_head)
      then have pos: "0 < w" by (simp add: w_def)
      from clock s have t2: "t1 + w \<le> t2" by simp
      then have aged: "r0 \<le> t2 - W" by (simp add: w_def)
      from t2 pos have mono: "t1 - W \<le> t2 - W" by simp
      have e2: "evict (t2 - W) reqs1 = evict (t2 - W) (requests rl)"
        unfolding reqs1_def by (rule evict_evict[OF mono])
      have "length (evict (t2 - W) rs) \<le> length rs" by (rule evict_length)
      with aged Cons have shrink: "length (evict (t2 - W) reqs1) < length reqs1" by simp
      have cnt: "length (filter (\<lambda>r. t2 - W < r) history) \<le> length (evict (t2 - W) reqs1)"
        unfolding e2 by (rule admit_count[OF q old' mono])
      have ex: "\<exists>k'. evict (t2 - W) reqs1 @ [t2] = drop k' (history @ [t2])
                  \<and> (\<forall>r\<in>set (take k' (history @ [t2])). r \<le> t2 - W)"
        unfolding e2 by (rule admit_suffix[OF q old' mono])
      from cnt shrink full have c: "int (length (filter (\<lambda>r. t2 - W < r) history)) < max_requests rl"
        by simp
      from shrink full have l: "int (length (evict (t2 - W) reqs1 @ [t2])) \<le> max_requests rl" by simp
      from s r pos c l ex show ?thesis
        by (simp add: W_def)
    qed
  qed
qed

theorem acquire_keeps_capacity_witness:
  "acquire 10 11 \<lparr>max_requests = 2, time_window = 10, requests = [1, 2]\<rparr>
     = Inr (Some 1, \<lparr>max_requests = 2, time_window = 10, requests = [2, 11]\<rparr>)
   \<and> int (length (requests \<lparr>max_requests = 2, time_window = 10, requests = [2, 11]\<rparr>)) \<le> 2
   \<and> int (length (filter (\<lambda>r. 11 - real_of_int 10 < r) [0, 1, 2])) < 2"
proof -
  have a: "acquire 10 11 \<lparr>max_requests = 2, time_window = 10, requests = [1, 2]\<rparr>
     = Inr (Some 1, \<lparr>max_requests = 2, time_window = 10, requests = [2, 11]\<rparr>)"
    by (simp add: acquire_def)
  from acquire_keeps_capacity[of "\<lparr>max_requests = 2, time_window = 10, requests = [1, 2]\<rparr>" 1 "[0, 1, 2]" 10 11
          "Some 1" "\<lparr>max_requests = 2, time_window = 10, requests = [2, 11]\<rparr>", OF _ _ _ a]
  have "int (length (requests \<lparr>max_requests = 2, time_window = 10, requests = [2, 11]\<rparr>)) \<le> 2
     \<and> int (length (filter (\<lambda>r. 11 - real_of_int 10 < r) [0, 1, 2])) < 2"
    by simp
  with a show ?thesis by simp
qed

text \<open>
  A full queue of capacity 2 and window 10, entered at time 10: the call sleeps for 1,
  but the clock then reads 10.5, nothing is evicted and the queue ends with three
  timestamps.
\<close>

theorem acquire_clock_behind_overfills:
  "acquire 10 (21 / 2) \<lparr>max_requests = 2, time_window = 10, requests = [1, 2]\<rparr>
     = Inr (Some 1, \<lparr>max_requests = 2, time_window = 10, requests = [1, 2, 21 / 2]\<rparr>)
   \<and> int (length (requests \<lparr>max_requests = 2, time_window = 10, requests = [1, 2]\<rparr>)) \<le> 2
   \<and> int (length (requests \<lparr>max_requests = 2, time_window = 10, requests = [1, 2, 21 / 2]\<rparr>)) = 3"
  by (simp add: acquire_def)

section \<open>Properties of the summarization client\<close>

lemma startswith_append: "startswith s (a @ b) \<Longrightarrow> startswith s a"
  by (induction s a rule: startswith.induct) auto

lemma py_in_append: "py_in (a @ b) s \<Longrightarrow> py_in a s"
  by (induction s) (auto dest: startswith_append)

lemma extract_fenced_plain: "\<not> py_in ''```'' text \<Longrightarrow> extract_fenced text = text"
proof -
  assume n: "\<not> py_in ''```'' text"
  have "py_in (''```'' @ ''json'') text \<Longrightarrow> py_in ''```'' text" by (rule py_in_append)
  with n have "\<not> py_in ''```json'' text" by auto
  with n show ?thesis by (simp add: extract_fenced_def)
qed

lemma map_of_dict_set: "map_of (dict_set d k v) k' = (if k' = k then Some v else map_of d k')"
  by (induction d k v rule: dict_set.induct) auto

lemma set_metadata_fields:
  "set_metadata x tokens = Inr d \<Longrightarrow>
     map_of d ''token_count'' = Some (JNum (real_of_int tokens))
     \<and> map_of d ''model_version'' = Some (JStr model_id)"
  by (cases x) (auto simp: set_metadata_def map_of_dict_set)

lemma parse_summary_fields:
  "parse_summary loads text tokens = Inr d \<Longrightarrow>
     map_of d ''token_count'' = Some (JNum (real_of_int tokens))
     \<and> map_of d ''model_version'' = Some (JStr model_id)"
  by (auto simp: parse_summary_def Let_def ebind_def degraded_summary_def
      split: sum.splits if_splits dest: set_metadata_fields)

lemma parse_summary_degraded:
  "loads (extract_fenced text) = Inl e \<Longrightarrow> exn_class e = ''JSONDecodeError'' \<Longrightarrow>
     parse_summary loads text tokens = Inr (degraded_summary (extract_fenced text) tokens)"
  by (simp add: parse_summary_def)

text \<open>
  C4, as amended. When the text given to \<open>json.loads\<close> fails to parse, a comprehensive
  \<open>generate_summary\<close> does not raise: it returns the summary whose overview is that
  text, whose key insights are the one sentinel string, whose implications are null and
  whose suggested themes are empty, with the token count of the response and the fixed
  model identifier. The text parsed is the response text after fence extraction, which
  is the raw response text when that contains no fence. Every comprehensive summary
  returned carries the token count and the model identifier.
  The claim as stated (the overview equals the raw response text) fails for a response
  with a fence: the overview is what stands between the fences, stripped.
\<close>

theorem degraded_summary_on_parse_failure:
  "(content_texts response = text # others \<and> loads (extract_fenced text) = Inl e
      \<and> exn_class e = ''JSONDecodeError'' \<longrightarrow>
      generate_summary loads (Inr response) ''comprehensive''
        = Inr [(''overview'', JStr (extract_fenced text)),
               (''key_insights'', JArr [JStr ''Summary generation partially failed - see overview'']),
               (''implications'', JNull),
               (''suggested_themes'', JArr []),
               (''token_count'', JNum (real_of_int (output_tokens response))),
               (''model_version'', JStr ''claude-sonnet-4-5-20250929'')])
   \<and> (\<not> py_in ''```'' text \<longrightarrow> extract_fenced text = text)
   \<and> (generate_summary loads (Inr response) ''comprehensive'' = Inr d \<longrightarrow>
        map_of d ''token_count'' = Some (JNum (real_of_int (output_tokens response)))
        \<and> map_of d ''model_version'' = Some (JStr ''claude-sonnet-4-5-20250929''))"
proof (intro conjI impI)
  assume "content_texts response = text # others \<and> loads (extract_fenced text) = Inl e
      \<and> exn_class e = ''JSONDecodeError''"
  then show "generate_summary loads (Inr response) ''comprehensive''
        = Inr [(''overview'', JStr (extract_fenced text)),
               (''key_insights'', JArr [JStr ''Summary generation partially failed - see overview'']),
               (''implications'', JNull),
               (''suggested_themes'', JArr []),
               (''token_count'', JNum (real_of_int (output_tokens response))),
               (''model_version'', JStr ''claude-sonnet-4-5-20250929'')]"
    by (simp add: generate_summary_def ebind_def response_text_of_def parse_summary_degraded
        degraded_summary_def model_id_def)
next
  assume "\<not> py_in ''```'' text"
  then show "extract_fenced text = text" by (rule extract_fenced_plain)
next
  assume g: "generate_summary loads (Inr response) ''comprehensive'' = Inr d"
  then obtain t where "parse_summary loads t (output_tokens response) = Inr d"
    by (auto simp: generate_summary_def ebind_def split: sum.splits)
  from parse_summary_fields[OF this]
  show "map_of d ''token_count'' = Some (JNum (real_of_int (output_tokens response)))"
    and "map_of d ''model_version'' = Some (JStr ''claude-sonnet-4-5-20250929'')"
    by (simp_all add: model_id_def)
qed

lemma fenced_example: "extract_fenced ''```json not json ```'' = ''not json''"
  by code_simp

lemma plain_example: "\<not> py_in ''```'' ''plain prose''"
  by code_simp

theorem degraded_summary_on_parse_failure_witness:
  "generate_summary no_json (Inr \<lparr>content_texts = [''plain prose''], output_tokens = 7\<rparr>) ''comprehensive''
     = Inr [(''overview'', JStr ''plain prose''),
            (''key_insights'', JArr [JStr ''Summary generation partially failed - see overview'']),
            (''implications'', JNull),
            (''suggested_themes'', JArr []),
            (''token_count'', JNum 7),
            (''model_version'', JStr ''claude-sonnet-4-5-20250929'')]"
  using degraded_summary_on_parse_failure[of "\<lparr>content_texts = [''plain prose''], output_tokens = 7\<rparr>"
          "''plain prose''" "[]" no_json "Exn ''JSONDecodeError'' ''Expecting value''"]
        plain_example
  by (simp add: no_json_def)

theorem degraded_overview_is_not_raw_text:
  "generate_summary no_json (Inr \<lparr>content_texts = [''```json not json ```''], output_tokens = 7\<rparr>) ''comprehensive''
     = Inr [(''overview'', JStr ''not json''),
            (''key_insights'', JArr [JStr ''Summary generation partially failed - see overview'']),
            (''implications'', JNull),
            (''suggested_themes'', JArr []),
            (''token_count'', JNum 7),
            (''model_version'', JStr ''claude-sonnet-4-5-20250929'')]"
  by (simp add: generate_summary_def ebind_def response_text_of_def parse_summary_def fenced_example
      no_json_def degraded_summary_def model_id_def)

section \<open>Properties of the theme service\<close>


lemma bnd_raise: "bnd (raise e) f = raise e"
  by (simp add: bnd_def raise_def)

lemma bnd_lift_Inr: "bnd (lift_exn (Inr x)) f = f x"
  by (simp add: bnd_def lift_exn_def)

lemma bnd_lift_Inl: "bnd (lift_exn (Inl e)) f = raise e"
  by (simp add: bnd_def lift_exn_def raise_def)




lemma bnd_apply_Inr: "m s = (Inr x, s') \<Longrightarrow> bnd m f s = f x s'"
  by (simp add: bnd_def)

lemma bnd_apply_Inl: "m s = (Inl e, s') \<Longrightarrow> bnd m f s = (Inl e, s')"
  by (simp add: bnd_def)

lemma round_trip_ok:
  "e_faults env (round_trips s) = None \<Longrightarrow>
     round_trip env s = (Inr (), s\<lparr>round_trips := Suc (round_trips s)\<rparr>)"
  by (simp add: round_trip_def)

lemma bnd_round_trip:
  "\<forall>n. e_faults env n = None \<Longrightarrow> bnd (round_trip env) f s = f () (s\<lparr>round_trips := Suc (round_trips s)\<rparr>)"
  by (simp add: bnd_def round_trip_def)









lemma flush_ok:
  "\<forall>n. e_faults env n = None \<Longrightarrow> bnd (flush env) f s = f () (s\<lparr>round_trips := Suc (round_trips s)\<rparr>)"
  by (simp add: flush_def bnd_round_trip)















lemma example_no_faults: "\<forall>n. e_faults (example_env reply) n = None"
  by (simp add: example_env_def)





section \<open>Properties of the content pipeline\<close>

lemma preservesI: "(\<And>s r s'. m s = (r, s') \<Longrightarrow> R s s') \<Longrightarrow> preserves R m"
  by (simp add: preserves_def)

lemma preservesD: "preserves R m \<Longrightarrow> m s = (r, s') \<Longrightarrow> R s s'"
  by (simp add: preserves_def)

lemma preserves_ret: "(\<And>a. R a a) \<Longrightarrow> preserves R (ret x)"
  by (simp add: preserves_def ret_def)

lemma preserves_raise: "(\<And>a. R a a) \<Longrightarrow> preserves R (raise e)"
  by (simp add: preserves_def raise_def)

lemma preserves_lift_exn: "(\<And>a. R a a) \<Longrightarrow> preserves R (lift_exn r)"
  by (simp add: preserves_def lift_exn_def)

lemma preserves_gets: "(\<And>a. R a a) \<Longrightarrow> preserves R (gets g)"
  by (simp add: preserves_def gets_def)

lemma preserves_modify: "(\<And>s. R s (g s)) \<Longrightarrow> preserves R (modify g)"
  by (simp add: preserves_def modify_def)

lemma preserves_bnd:
  assumes tr: "\<And>a b c. R a b \<Longrightarrow> R b c \<Longrightarrow> R a c"
    and m: "preserves R m" and f: "\<And>x. preserves R (f x)"
  shows "preserves R (bnd m f)"
proof (rule preservesI)
  fix s r s'
  assume run: "bnd m f s = (r, s')"
  obtain r1 s1 where m1: "m s = (r1, s1)" by (cases "m s")
  from preservesD[OF m m1] have a: "R s s1" .
  show "R s s'"
  proof (cases r1)
    case (Inl e)
    with run m1 have "s' = s1" by (simp add: bnd_def)
    with a show ?thesis by simp
  next
    case (Inr x)
    with run m1 have "f x s1 = (r, s')" by (simp add: bnd_def)
    from preservesD[OF f this] have "R s1 s'" .
    with a show ?thesis by (rule tr)
  qed
qed

lemma preserves_catch:
  assumes tr: "\<And>a b c. R a b \<Longrightarrow> R b c \<Longrightarrow> R a c"
    and m: "preserves R m" and h: "\<And>e. preserves R (h e)"
  shows "preserves R (catch m h)"
proof (rule preservesI)
  fix s r s'
  assume run: "catch m h s = (r, s')"
  obtain r1 s1 where m1: "m s = (r1, s1)" by (cases "m s")
  from preservesD[OF m m1] have a: "R s s1" .
  show "R s s'"
  proof (cases r1)
    case (Inr x)
    with run m1 have "s' = s1" by (simp add: catch_def)
    with a show ?thesis by simp
  next
    case (Inl e)
    with run m1 have "h e s1 = (r, s')" by (simp add: catch_def)
    from preservesD[OF h this] have "R s1 s'" .
    with a show ?thesis by (rule tr)
  qed
qed

lemma preserves_weaken: "preserves R m \<Longrightarrow> (\<And>s s'. R s s' \<Longrightarrow> R' s s') \<Longrightarrow> preserves R' m"
  by (simp add: preserves_def)

text \<open>The three relations are reflexive and transitive.\<close>

lemma reads_only_refl: "reads_only a a"
  by (simp add: reads_only_def)

lemma reads_only_trans: "reads_only a b \<Longrightarrow> reads_only b c \<Longrightarrow> reads_only a c"
  by (simp add: reads_only_def)

lemma no_commit_refl: "no_commit a a"
  by (simp add: no_commit_def)

lemma no_commit_trans: "no_commit a b \<Longrightarrow> no_commit b c \<Longrightarrow> no_commit a c"
  by (simp add: no_commit_def)

lemma same_contents_refl: "same_contents a a"
  by (simp add: same_contents_def)

lemma same_contents_trans: "same_contents a b \<Longrightarrow> same_contents b c \<Longrightarrow> same_contents a c"
  by (simp add: same_contents_def)

lemma reads_only_same_contents: "reads_only a b \<Longrightarrow> same_contents a b"
  by (simp add: reads_only_def same_contents_def)

lemma same_contents_no_commit: "same_contents a b \<Longrightarrow> no_commit a b"
  by (simp add: same_contents_def no_commit_def)

lemma ro_bnd:
  assumes "preserves reads_only m" and "\<And>x. preserves reads_only (f x)"
  shows "preserves reads_only (bnd m f)"
  using reads_only_trans assms by (rule preserves_bnd)

lemma ro_ret: "preserves reads_only (ret x)"
  using reads_only_refl by (rule preserves_ret)

lemma ro_raise: "preserves reads_only (raise e)"
  using reads_only_refl by (rule preserves_raise)

lemma ro_gets: "preserves reads_only (gets g)"
  using reads_only_refl by (rule preserves_gets)

lemma ro_lift: "preserves reads_only (lift_exn r)"
  using reads_only_refl by (rule preserves_lift_exn)

text \<open>The statements that only read.\<close>

lemma round_trip_reads: "preserves reads_only (round_trip env)"
  by (simp add: preserves_def round_trip_def reads_only_def)

lemma db_select_reads: "preserves reads_only (db_select env g)"
  unfolding db_select_def
  by (rule ro_bnd[OF round_trip_reads ro_gets])

lemma scalar_one_reads: "preserves reads_only (scalar_one rows)"
proof (cases rows)
  case Nil
  then show ?thesis by (simp add: scalar_one_def ro_raise)
next
  case (Cons x xs)
  then show ?thesis by (cases xs) (simp_all add: scalar_one_def ro_raise ro_ret)
qed

lemma scalar_one_or_none_reads: "preserves reads_only (scalar_one_or_none rows)"
proof (cases rows)
  case Nil
  then show ?thesis by (simp add: scalar_one_or_none_def ro_ret)
next
  case (Cons x xs)
  then show ?thesis by (cases xs) (simp_all add: scalar_one_or_none_def ro_raise ro_ret)
qed

lemma get_content_details_reads: "preserves reads_only (get_content_details env content_id)"
  unfolding get_content_details_def
  by (intro ro_bnd db_select_reads scalar_one_reads scalar_one_or_none_reads ro_ret)

lemma sc_bnd:
  assumes "preserves same_contents m" and "\<And>x. preserves same_contents (f x)"
  shows "preserves same_contents (bnd m f)"
  using same_contents_trans assms by (rule preserves_bnd)

lemma sc_catch:
  assumes "preserves same_contents m" and "\<And>e. preserves same_contents (h e)"
  shows "preserves same_contents (catch m h)"
  using same_contents_trans assms by (rule preserves_catch)

lemma sc_if: "preserves same_contents a \<Longrightarrow> preserves same_contents b \<Longrightarrow> preserves same_contents (if c then a else b)"
  by simp

lemma sc_ret: "preserves same_contents (ret x)"
  using same_contents_refl by (rule preserves_ret)

lemma sc_gets: "preserves same_contents (gets g)"
  using same_contents_refl by (rule preserves_gets)

lemma sc_lift: "preserves same_contents (lift_exn r)"
  using same_contents_refl by (rule preserves_lift_exn)

lemma sc_reads: "preserves reads_only m \<Longrightarrow> preserves same_contents m"
  by (erule preserves_weaken) (rule reads_only_same_contents)

lemma sc_round_trip: "preserves same_contents (round_trip env)"
  by (rule sc_reads[OF round_trip_reads])

lemma sc_flush: "preserves same_contents (flush env)"
  unfolding flush_def by (rule sc_round_trip)

lemma sc_db_select: "preserves same_contents (db_select env g)"
  by (rule sc_reads[OF db_select_reads])

lemma sc_llm_request: "preserves same_contents (llm_request env)"
  by (simp add: preserves_def llm_request_def same_contents_def)

lemma sc_add_theme: "preserves same_contents (add_theme theme)"
  unfolding add_theme_def by (rule preserves_modify) (simp add: same_contents_def)

lemma sc_add_content_theme: "preserves same_contents (add_content_theme content_id theme_id confidence)"
  unfolding add_content_theme_def by (rule preserves_modify) (simp add: same_contents_def)

lemma sc_increment: "preserves same_contents (increment_content_count env theme_id)"
  unfolding increment_content_count_def
  by (rule sc_bnd[OF sc_round_trip]) (rule preserves_modify, simp add: same_contents_def)

lemma sc_create_theme: "preserves same_contents (create_theme env name description)"
  unfolding create_theme_def
  by (intro sc_bnd sc_gets sc_add_theme sc_flush sc_ret)

lemma sc_bootstrap_loop: "preserves same_contents (bootstrap_loop env theme_datas)"
proof (induction theme_datas)
  case Nil
  show ?case by (simp add: sc_ret)
next
  case (Cons a theme_datas)
  show ?case
    unfolding bootstrap_loop.simps
    by (intro sc_bnd sc_lift sc_create_theme Cons.IH)
qed

lemma sc_bootstrap_body: "preserves same_contents (bootstrap_body env)"
  unfolding bootstrap_body_def
  by (intro sc_bnd sc_if sc_db_select sc_llm_request sc_lift sc_bootstrap_loop sc_flush sc_ret)

lemma sc_bootstrap_themes: "preserves same_contents (bootstrap_themes env)"
  unfolding bootstrap_themes_def by (intro sc_catch sc_bootstrap_body sc_ret)

lemma sc_cold_start_loop: "preserves same_contents (cold_start_loop env content_id names acc)"
proof (induction names arbitrary: acc)
  case Nil
  show ?case by (simp add: sc_ret)
next
  case (Cons a names)
  show ?case
    unfolding cold_start_loop.simps
    by (intro sc_bnd sc_create_theme sc_add_content_theme Cons.IH)
qed

lemma sc_cold_start: "preserves same_contents (cold_start env content_id summary)"
  unfolding cold_start_def by (intro sc_bnd sc_lift sc_cold_start_loop)

lemma sc_process_match: "preserves same_contents (process_match env content_id match acc)"
  unfolding process_match_def
  by (intro sc_bnd sc_lift sc_if sc_add_content_theme sc_increment sc_ret)

lemma sc_match_loop: "preserves same_contents (match_loop env content_id matches acc)"
proof (induction matches arbitrary: acc)
  case Nil
  show ?case by (simp add: sc_ret)
next
  case (Cons a matches)
  show ?case
    unfolding match_loop.simps
    by (intro sc_bnd sc_process_match Cons.IH)
qed

lemma sc_new_theme: "preserves same_contents (new_theme_from_suggestion env content_id sug acc)"
  unfolding new_theme_from_suggestion_def
  by (intro sc_if sc_bnd sc_lift sc_create_theme sc_add_content_theme sc_ret)

lemma sc_categorize_existing: "preserves same_contents (categorize_existing env content_id summary existing)"
  unfolding categorize_existing_def
  by (intro sc_bnd sc_llm_request sc_lift sc_match_loop sc_new_theme)

lemma sc_maybe_bootstrap: "preserves same_contents (maybe_bootstrap env existing)"
  unfolding maybe_bootstrap_def
  by (intro sc_if sc_bnd sc_db_select sc_bootstrap_themes sc_ret)

lemma sc_categorize_body: "preserves same_contents (categorize_body env content_id summary)"
  unfolding categorize_body_def
  by (intro sc_bnd sc_if sc_db_select sc_maybe_bootstrap sc_cold_start sc_categorize_existing sc_flush sc_ret)

lemma sc_categorize_content: "preserves same_contents (categorize_content env content_id summary)"
  unfolding categorize_content_def by (intro sc_catch sc_categorize_body sc_ret)

lemma bnd_Inr_split:
  assumes "bnd m f s = (Inr y, s')"
  obtains x s1 where "m s = (Inr x, s1)" and "f x s1 = (Inr y, s')"
proof -
  obtain r s1 where m: "m s = (r, s1)" by (cases "m s")
  show ?thesis
  proof (cases r)
    case (Inl e)
    with assms m show ?thesis by (simp add: bnd_def)
  next
    case (Inr x)
    with assms m have "f x s1 = (Inr y, s')" by (simp add: bnd_def)
    with m Inr show ?thesis using that by simp
  qed
qed

lemma nc_bnd:
  assumes "preserves no_commit m" and "\<And>x. preserves no_commit (f x)"
  shows "preserves no_commit (bnd m f)"
  using no_commit_trans assms by (rule preserves_bnd)

lemma nc_same: "preserves same_contents m \<Longrightarrow> preserves no_commit m"
  by (erule preserves_weaken) (rule same_contents_no_commit)

lemma nc_ret: "preserves no_commit (ret x)"
  using no_commit_refl by (rule preserves_ret)

lemma nc_gets: "preserves no_commit (gets g)"
  using no_commit_refl by (rule preserves_gets)

lemma nc_lift: "preserves no_commit (lift_exn r)"
  using no_commit_refl by (rule preserves_lift_exn)

lemma nc_add_content: "preserves no_commit (add_content c)"
  unfolding add_content_def by (rule preserves_modify) (simp add: no_commit_def)

lemma nc_add_summary: "preserves no_commit (add_summary sm)"
  unfolding add_summary_def by (rule preserves_modify) (simp add: no_commit_def)

lemma nc_create_content: "preserves no_commit (create_content env st su fp ex h)"
  unfolding create_content_def
  by (intro nc_bnd nc_gets nc_add_content nc_same[OF sc_flush] nc_ret)

lemma nc_create_summary: "preserves no_commit (create_summary env cid sd)"
  unfolding create_summary_def
  by (intro nc_bnd nc_lift nc_gets nc_add_summary nc_same[OF sc_flush])

lemma sc_ai_generate_summary: "preserves same_contents (ai_generate_summary env)"
  unfolding ai_generate_summary_def by (intro sc_bnd sc_llm_request sc_lift)

lemma nc_process_new: "preserves no_commit (process_new env source is_file su fp ex h)"
  unfolding process_new_def
  by (intro nc_bnd nc_lift nc_create_content nc_same[OF sc_ai_generate_summary] nc_create_summary
        nc_same[OF sc_categorize_content] nc_ret)

lemma round_trip_Inr:
  "round_trip env s = (Inr x, s1) \<Longrightarrow> s1 = s\<lparr>round_trips := Suc (round_trips s)\<rparr>"
  by (simp add: round_trip_def split: option.splits)

lemma create_content_success:
  assumes "create_content env st su fp ex h s = (Inr c, s1)"
  shows "contents (cur s1) = contents (cur s) @ [c] \<and> summaries (cur s1) = summaries (cur s)
       \<and> c_id c = next_content_id s \<and> c_content_hash c = h
       \<and> next_content_id s1 = next_content_id s + 1"
proof -
  from assms obtain c0 sa where g: "gets (\<lambda>s. \<lparr>c_id = next_content_id s,
                      c_source_type = st, c_source_url = su, c_file_path = fp,
                      c_title = ex_title ex, c_author = ex_author ex,
                      c_publish_date = ex_publish_date ex, c_raw_content = ex_content ex,
                      c_content_hash = h, c_extraction_metadata = ex_metadata ex,
                      c_created_at = e_now env (round_trips s)\<rparr>) s = (Inr c0, sa)"
    and r1: "bnd (add_content c0) (\<lambda>_. bnd (flush env) (\<lambda>_. ret c0)) sa = (Inr c, s1)"
    unfolding create_content_def by (rule bnd_Inr_split)
  from r1 obtain u sb where a: "add_content c0 sa = (Inr u, sb)"
    and r2: "bnd (flush env) (\<lambda>_. ret c0) sb = (Inr c, s1)"
    by (rule bnd_Inr_split)
  from r2 obtain v sc where f: "flush env sb = (Inr v, sc)" and r3: "ret c0 sc = (Inr c, s1)"
    by (rule bnd_Inr_split)
  from f have sc: "sc = sb\<lparr>round_trips := Suc (round_trips sb)\<rparr>"
    unfolding flush_def by (rule round_trip_Inr)
  from g a r3 sc show ?thesis
    by (auto simp: gets_def add_content_def modify_def ret_def)
qed

lemma create_summary_success:
  assumes "create_summary env cid sd s = (Inr u, s1)"
  shows "\<exists>sm. summaries (cur s1) = summaries (cur s) @ [sm] \<and> s_content_id sm = cid
       \<and> contents (cur s1) = contents (cur s) \<and> next_content_id s1 = next_content_id s"
proof -
  from assms obtain ov sa where l: "lift_exn (dict_getitem sd ''overview'') s = (Inr ov, sa)"
    and r0: "bnd (gets (\<lambda>s. \<lparr>s_id = next_summary_id s, s_content_id = cid, s_overview = ov,
                      s_key_insights = dict_get sd ''key_insights'' (JArr []),
                      s_implications = dict_get sd ''implications'' JNull,
                      s_model_version = dict_get sd ''model_version'' JNull,
                      s_token_count = dict_get sd ''token_count'' JNull\<rparr>))
              (\<lambda>summary. bnd (add_summary summary) (\<lambda>_. flush env)) sa = (Inr u, s1)"
    unfolding create_summary_def by (rule bnd_Inr_split)
  from r0 obtain sm sb where g: "gets (\<lambda>s. \<lparr>s_id = next_summary_id s, s_content_id = cid, s_overview = ov,
                      s_key_insights = dict_get sd ''key_insights'' (JArr []),
                      s_implications = dict_get sd ''implications'' JNull,
                      s_model_version = dict_get sd ''model_version'' JNull,
                      s_token_count = dict_get sd ''token_count'' JNull\<rparr>) sa = (Inr sm, sb)"
    and r1: "bnd (add_summary sm) (\<lambda>_. flush env) sb = (Inr u, s1)"
    by (rule bnd_Inr_split)
  from r1 obtain w sc where a: "add_summary sm sb = (Inr w, sc)" and f: "flush env sc = (Inr u, s1)"
    by (rule bnd_Inr_split)
  from f have s1: "s1 = sc\<lparr>round_trips := Suc (round_trips sc)\<rparr>"
    unfolding flush_def by (rule round_trip_Inr)
  from l g a s1 have "summaries (cur s1) = summaries (cur s) @ [sm] \<and> s_content_id sm = cid
       \<and> contents (cur s1) = contents (cur s) \<and> next_content_id s1 = next_content_id s"
    by (auto simp: lift_exn_def gets_def add_summary_def modify_def)
  then show ?thesis by blast
qed

lemma process_new_success:
  assumes "process_new env source is_file su fp ex h s = (Inr c, s2)"
  shows "\<exists>sm. contents (cur s2) = contents (cur s) @ [c]
       \<and> summaries (cur s2) = summaries (cur s) @ [sm]
       \<and> s_content_id sm = c_id c \<and> c_id c = next_content_id s \<and> c_content_hash c = h
       \<and> next_content_id s2 = next_content_id s + 1"
proof -
  from assms obtain x sa where l: "lift_exn (get_extractor (e_netloc env) source is_file) s = (Inr x, sa)"
    and r0: "bnd (create_content env (get_source_type x) su fp ex h)
           (\<lambda>content. bnd (ai_generate_summary env)
             (\<lambda>summary_data. bnd (create_summary env (c_id content) summary_data)
               (\<lambda>_. bnd (categorize_content env (c_id content) summary_data) (\<lambda>theme_ids. ret content)))) sa
           = (Inr c, s2)"
    unfolding process_new_def by (rule bnd_Inr_split)
  from l have sa: "sa = s" by (simp add: lift_exn_def)
  from r0 obtain c0 sb where cc: "create_content env (get_source_type x) su fp ex h sa = (Inr c0, sb)"
    and r1: "bnd (ai_generate_summary env)
             (\<lambda>summary_data. bnd (create_summary env (c_id c0) summary_data)
               (\<lambda>_. bnd (categorize_content env (c_id c0) summary_data) (\<lambda>theme_ids. ret c0))) sb
           = (Inr c, s2)"
    by (rule bnd_Inr_split)
  from r1 obtain sd sc where ag: "ai_generate_summary env sb = (Inr sd, sc)"
    and r2: "bnd (create_summary env (c_id c0) sd)
               (\<lambda>_. bnd (categorize_content env (c_id c0) sd) (\<lambda>theme_ids. ret c0)) sc = (Inr c, s2)"
    by (rule bnd_Inr_split)
  from r2 obtain u se where cs: "create_summary env (c_id c0) sd sc = (Inr u, se)"
    and r3: "bnd (categorize_content env (c_id c0) sd) (\<lambda>theme_ids. ret c0) se = (Inr c, s2)"
    by (rule bnd_Inr_split)
  from r3 obtain ids sf where cat: "categorize_content env (c_id c0) sd se = (Inr ids, sf)"
    and r4: "ret c0 sf = (Inr c, s2)"
    by (rule bnd_Inr_split)
  from r4 have e: "c = c0" "s2 = sf" by (simp_all add: ret_def)
  from create_content_success[OF cc] sa
  have 1: "contents (cur sb) = contents (cur s) @ [c0]" "summaries (cur sb) = summaries (cur s)"
     "c_id c0 = next_content_id s" "c_content_hash c0 = h" "next_content_id sb = next_content_id s + 1"
    by simp_all
  from preservesD[OF sc_ai_generate_summary ag]
  have 2: "contents (cur sc) = contents (cur sb)" "summaries (cur sc) = summaries (cur sb)"
     "next_content_id sc = next_content_id sb"
    by (simp_all add: same_contents_def)
  from create_summary_success[OF cs] obtain sm where
    3: "summaries (cur se) = summaries (cur sc) @ [sm]" "s_content_id sm = c_id c0"
       "contents (cur se) = contents (cur sc)" "next_content_id se = next_content_id sc"
    by blast
  from preservesD[OF sc_categorize_content cat]
  have 4: "contents (cur sf) = contents (cur se)" "summaries (cur sf) = summaries (cur se)"
     "next_content_id sf = next_content_id se"
    by (simp_all add: same_contents_def)
  from 1 2 3 4 e have "contents (cur s2) = contents (cur s) @ [c]
       \<and> summaries (cur s2) = summaries (cur s) @ [sm]
       \<and> s_content_id sm = c_id c \<and> c_id c = next_content_id s \<and> c_content_hash c = h
       \<and> next_content_id s2 = next_content_id s + 1"
    by simp
  then show ?thesis by blast
qed

lemma commit_and_return_outcome:
  assumes "commit_and_return env c s = (r, s')"
  shows "(no_commit s s' \<and> cur s' = cur s \<and> (\<exists>e. r = Inl e))
       \<or> (commits s' = Suc (commits s) \<and> com s' = cur s \<and> cur s' = cur s
           \<and> next_content_id s' = next_content_id s \<and> llm_calls s' = llm_calls s)"
proof (cases "e_faults env (round_trips s)")
  case (Some e)
  with assms have "r = Inl e" "s' = s\<lparr>round_trips := Suc (round_trips s)\<rparr>"
    by (simp_all add: commit_and_return_def commit_def bnd_def round_trip_def)
  then show ?thesis by (simp add: no_commit_def)
next
  case None
  define sc where "sc = s\<lparr>round_trips := Suc (round_trips s), com := cur s, commits := Suc (commits s)\<rparr>"
  from None assms have run: "bnd (round_trip env) (\<lambda>_. get_content_details env (c_id c)) sc = (r, s')"
    by (simp add: commit_and_return_def commit_def bnd_def round_trip_def modify_def sc_def)
  have "preserves reads_only (bnd (round_trip env) (\<lambda>_. get_content_details env (c_id c)))"
    by (intro ro_bnd round_trip_reads get_content_details_reads)
  from preservesD[OF this run] have "reads_only sc s'" .
  then have "commits s' = Suc (commits s) \<and> com s' = cur s \<and> cur s' = cur s
     \<and> next_content_id s' = next_content_id s \<and> llm_calls s' = llm_calls s"
    by (simp add: reads_only_def sc_def)
  then show ?thesis by blast
qed

lemma process_body_outcome:
  assumes run: "process_body env source is_file md su fp s = (r, s1)"
  shows "(com s1 = com s \<and> commits s1 = commits s)
       \<or> (commits s1 = Suc (commits s) \<and> cur s1 = com s1
           \<and> (\<exists>c sm. contents (com s1) = contents (cur s) @ [c]
                 \<and> summaries (com s1) = summaries (cur s) @ [sm] \<and> s_content_id sm = c_id c))"
proof (cases "factory_extract env source is_file")
  case (Inl e)
  with run have "s1 = s" by (simp add: process_body_def bnd_def lift_exn_def)
  then show ?thesis by simp
next
  case (Inr ex)
  let ?h = "generate_content_hash (e_sha256 env) (ex_content ex) (md (ex_title ex))"
  let ?K = "\<lambda>existing_content :: content_row option. case existing_content of
       Some existing \<Rightarrow> get_content_details env (c_id existing)
     | None \<Rightarrow> bnd (process_new env source is_file su fp ex ?h) (commit_and_return env)"
  from run Inr have run1:
    "bnd (db_select env (\<lambda>t. filter (\<lambda>c. c_content_hash c = ?h) (contents t)))
        (\<lambda>rows. bnd (scalar_one_or_none rows) ?K) s = (r, s1)"
    by (simp add: process_body_def bnd_lift_Inr Let_def)
  obtain r1 sa where sel: "db_select env (\<lambda>t. filter (\<lambda>c. c_content_hash c = ?h) (contents t)) s = (r1, sa)"
    by (cases "db_select env (\<lambda>t. filter (\<lambda>c. c_content_hash c = ?h) (contents t)) s")
  from preservesD[OF db_select_reads sel] have ra: "reads_only s sa" .
  show ?thesis
  proof (cases r1)
    case (Inl e)
    with run1 sel have "s1 = sa" by (simp add: bnd_def)
    with ra show ?thesis by (simp add: reads_only_def)
  next
    case (Inr rows)
    with run1 sel have run2: "bnd (scalar_one_or_none rows) ?K sa = (r, s1)" by (simp add: bnd_def)
    obtain r2 sb where sc1: "scalar_one_or_none rows sa = (r2, sb)"
      by (cases "scalar_one_or_none rows sa")
    from preservesD[OF scalar_one_or_none_reads sc1] have rb: "reads_only sa sb" .
    from ra rb have rsb: "reads_only s sb" by (rule reads_only_trans)
    show ?thesis
    proof (cases r2)
      case (Inl e)
      with run2 sc1 have "s1 = sb" by (simp add: bnd_def)
      with rsb show ?thesis by (simp add: reads_only_def)
    next
      case (Inr existing)
      with run2 sc1 have run3: "?K existing sb = (r, s1)" by (simp add: bnd_def)
      show ?thesis
      proof (cases existing)
        case (Some ec)
        with run3 have "get_content_details env (c_id ec) sb = (r, s1)" by simp
        from preservesD[OF get_content_details_reads this] have "reads_only sb s1" .
        with rsb have "reads_only s s1" by (rule reads_only_trans)
        then show ?thesis by (simp add: reads_only_def)
      next
        case None
        with run3 have run4: "bnd (process_new env source is_file su fp ex ?h) (commit_and_return env) sb = (r, s1)"
          by simp
        obtain r3 sc where pn: "process_new env source is_file su fp ex ?h sb = (r3, sc)"
          by (cases "process_new env source is_file su fp ex ?h sb")
        from preservesD[OF nc_process_new pn] have nc: "no_commit sb sc" .
        show ?thesis
        proof (cases r3)
          case (Inl e)
          with run4 pn have "s1 = sc" by (simp add: bnd_def)
          with nc rsb show ?thesis by (simp add: reads_only_def no_commit_def)
        next
          case (Inr c)
          with run4 pn have car: "commit_and_return env c sc = (r, s1)" by (simp add: bnd_def)
          from Inr pn process_new_success[of env source is_file su fp ex ?h sb c sc]
          obtain sm where post: "contents (cur sc) = contents (cur sb) @ [c]"
            "summaries (cur sc) = summaries (cur sb) @ [sm]" "s_content_id sm = c_id c"
            by auto
          from commit_and_return_outcome[OF car]
          show ?thesis
          proof
            assume "no_commit sc s1 \<and> cur s1 = cur sc \<and> (\<exists>e. r = Inl e)"
            with nc rsb show ?thesis by (simp add: reads_only_def no_commit_def)
          next
            assume a: "commits s1 = Suc (commits sc) \<and> com s1 = cur sc \<and> cur s1 = cur sc
               \<and> next_content_id s1 = next_content_id sc \<and> llm_calls s1 = llm_calls sc"
            with post rsb have "contents (com s1) = contents (cur s) @ [c]
                 \<and> summaries (com s1) = summaries (cur s) @ [sm] \<and> s_content_id sm = c_id c"
              by (simp add: reads_only_def)
            then have "\<exists>c sm. contents (com s1) = contents (cur s) @ [c]
                 \<and> summaries (com s1) = summaries (cur s) @ [sm] \<and> s_content_id sm = c_id c"
              by blast
            with a nc rsb show ?thesis by (simp add: reads_only_def no_commit_def)
          qed
        qed
      qed
    qed
  qed
qed

lemma wrapped_failure:
  assumes run: "catch (process_body env source is_file md su fp) (rollback_and_wrap prefix) s = (Inl err, s')"
  shows "(\<exists>e s1. process_body env source is_file md su fp s = (Inl e, s1)
            \<and> err = Exn ''Exception'' (prefix @ exn_str e))
       \<and> cur s' = com s'
       \<and> (commits s' = commits s \<longrightarrow> com s' = com s)
       \<and> (commits s' \<noteq> commits s \<longrightarrow>
            (\<exists>c sm. contents (com s') = contents (cur s) @ [c]
               \<and> summaries (com s') = summaries (cur s) @ [sm] \<and> s_content_id sm = c_id c))"
proof -
  obtain r s1 where body: "process_body env source is_file md su fp s = (r, s1)"
    by (cases "process_body env source is_file md su fp s")
  show ?thesis
  proof (cases r)
    case (Inr x)
    with run body show ?thesis by (simp add: catch_def)
  next
    case (Inl e)
    with run body have e: "err = Exn ''Exception'' (prefix @ exn_str e)" and s': "s' = s1\<lparr>cur := com s1\<rparr>"
      by (simp_all add: catch_def rollback_and_wrap_def rollback_def bnd_def modify_def raise_def wrap_exn_def)
    from body Inl e have first: "\<exists>e s1. process_body env source is_file md su fp s = (Inl e, s1)
            \<and> err = Exn ''Exception'' (prefix @ exn_str e)" by blast
    from process_body_outcome[OF body] s' have rest: "cur s' = com s'
       \<and> (commits s' = commits s \<longrightarrow> com s' = com s)
       \<and> (commits s' \<noteq> commits s \<longrightarrow>
            (\<exists>c sm. contents (com s') = contents (cur s) @ [c]
               \<and> summaries (com s') = summaries (cur s) @ [sm] \<and> s_content_id sm = c_id c))"
      by auto
    from first rest show ?thesis by blast
  qed
qed

text \<open>
  C3, as amended. When \<open>process_url\<close> or \<open>process_file\<close> raises, the exception is the
  single wrapped one whose message ends with the message of the exception raised in the
  body, and the session has been rolled back. If the exception was raised before the
  commit succeeded, the committed store is what it was before the call: none of the
  writes of the call persists. If it was raised after the commit, the committed store
  holds the new content row together with its summary.
  The claim as stated (any exception after the content row was added leaves nothing
  behind) fails for an exception raised after \<open>db.commit()\<close> has succeeded, by
  \<open>db.refresh\<close> or while the envelope is read back.
\<close>

theorem failure_rolls_back:
  "(process_url env url s = (Inl err, s') \<longrightarrow>
      (\<exists>e s1. process_body env url False (url_metadata url) (Some url) None s = (Inl e, s1)
            \<and> err = Exn ''Exception'' (''Failed to process URL: '' @ exn_str e))
       \<and> cur s' = com s'
       \<and> (commits s' = commits s \<longrightarrow> com s' = com s)
       \<and> (commits s' \<noteq> commits s \<longrightarrow>
            (\<exists>c sm. contents (com s') = contents (cur s) @ [c]
               \<and> summaries (com s') = summaries (cur s) @ [sm] \<and> s_content_id sm = c_id c)))
   \<and> (process_file env file_path original_filename s = (Inl err, s') \<longrightarrow>
      (\<exists>e s1. process_body env file_path True (file_metadata original_filename) None (Some file_path) s = (Inl e, s1)
            \<and> err = Exn ''Exception'' (''Failed to process file: '' @ exn_str e))
       \<and> cur s' = com s'
       \<and> (commits s' = commits s \<longrightarrow> com s' = com s)
       \<and> (commits s' \<noteq> commits s \<longrightarrow>
            (\<exists>c sm. contents (com s') = contents (cur s) @ [c]
               \<and> summaries (com s') = summaries (cur s) @ [sm] \<and> s_content_id sm = c_id c)))"
  unfolding process_url_def process_file_def
  using wrapped_failure[of env url False "url_metadata url" "Some url" None "''Failed to process URL: ''" s err s']
        wrapped_failure[of env file_path True "file_metadata original_filename" None "Some file_path"
            "''Failed to process file: ''" s err s']
  by blast

lemma llm_down_run:
  "fst (process_url llm_down_env ''http://a.b/c'' fresh_session)
     = Inl (Exn ''Exception'' ''Failed to process URL: Failed to generate summary: overloaded'')"
  "commits (snd (process_url llm_down_env ''http://a.b/c'' fresh_session)) = 0"
  by code_simp+

theorem failure_rolls_back_witness:
  "fst (process_url llm_down_env ''http://a.b/c'' fresh_session)
     = Inl (Exn ''Exception'' ''Failed to process URL: Failed to generate summary: overloaded'')
   \<and> com (snd (process_url llm_down_env ''http://a.b/c'' fresh_session)) = empty_tables
   \<and> cur (snd (process_url llm_down_env ''http://a.b/c'' fresh_session)) = empty_tables"
proof -
  have run: "process_url llm_down_env ''http://a.b/c'' fresh_session
     = (Inl (Exn ''Exception'' ''Failed to process URL: Failed to generate summary: overloaded''),
        snd (process_url llm_down_env ''http://a.b/c'' fresh_session))"
    using llm_down_run(1) by (simp add: prod_eq_iff)
  from failure_rolls_back[of llm_down_env "''http://a.b/c''" fresh_session
        "Exn ''Exception'' ''Failed to process URL: Failed to generate summary: overloaded''"
        "snd (process_url llm_down_env ''http://a.b/c'' fresh_session)"] run llm_down_run(2)
  have "cur (snd (process_url llm_down_env ''http://a.b/c'' fresh_session))
          = com (snd (process_url llm_down_env ''http://a.b/c'' fresh_session))
      \<and> com (snd (process_url llm_down_env ''http://a.b/c'' fresh_session)) = com fresh_session"
    by (simp add: fresh_session_def)
  with llm_down_run(1) show ?thesis by (simp add: fresh_session_def)
qed

theorem failure_after_commit_persists:
  "fst (process_url (faulty_env 10) ''http://a.b/c'' fresh_session)
     = Inl (Exn ''Exception'' ''Failed to process URL: connection lost'')
   \<and> map c_id (contents (com (snd (process_url (faulty_env 10) ''http://a.b/c'' fresh_session)))) = [1]
   \<and> map s_content_id (summaries (com (snd (process_url (faulty_env 10) ''http://a.b/c'' fresh_session)))) = [1]
   \<and> length (content_themes (com (snd (process_url (faulty_env 10) ''http://a.b/c'' fresh_session)))) = 3"
  by code_simp

lemma filter_unique:
  "distinct (map f xs) \<Longrightarrow> x \<in> set xs \<Longrightarrow> filter (\<lambda>y. f y = f x) xs = [x]"
proof (induction xs)
  case Nil
  then show ?case by simp
next
  case (Cons a xs)
  show ?case
  proof (cases "a = x")
    case True
    with Cons.prems have nin: "f x \<notin> f ` set xs" by simp
    have "\<forall>y\<in>set xs. f y \<noteq> f x"
    proof (intro ballI notI)
      fix y assume "y \<in> set xs" and "f y = f x"
      then have "f x \<in> f ` set xs" by (metis imageI)
      with nin show False by simp
    qed
    then have "filter (\<lambda>y. f y = f x) xs = []" by (simp add: filter_empty_conv)
    with True show ?thesis by simp
  next
    case False
    with Cons.prems have x: "x \<in> set xs" by simp
    with Cons.prems have "f a \<noteq> f x" by auto
    with Cons.IH[OF _ x] Cons.prems show ?thesis by simp
  qed
qed

lemma filter_by_key:
  "distinct (map f xs) \<Longrightarrow> a \<in> set (map f xs) \<Longrightarrow> \<exists>x. x \<in> set xs \<and> f x = a \<and> filter (\<lambda>y. f y = a) xs = [x]"
proof -
  assume d: "distinct (map f xs)" and "a \<in> set (map f xs)"
  then obtain x where x: "x \<in> set xs" "f x = a" by auto
  from filter_unique[OF d x(1)] x show ?thesis by auto
qed

lemma get_content_details_ok:
  assumes nf: "\<forall>n. e_faults env n = None"
    and ok: "store_ok s"
    and mem: "c \<in> set (contents (cur s))"
  shows "get_content_details env (c_id c) s
     = (Inr (envelope_of (cur s) c), s\<lparr>round_trips := round_trips s + 3\<rparr>)"
proof -
  from ok have d1: "distinct (map c_id (contents (cur s)))"
    and d2: "distinct (map s_content_id (summaries (cur s)))"
    and sub: "set (map c_id (contents (cur s))) \<subseteq> set (map s_content_id (summaries (cur s)))"
    by (simp_all add: store_ok_def)
  from filter_unique[OF d1 mem] have f1: "filter (\<lambda>y. c_id y = c_id c) (contents (cur s)) = [c]" .
  from mem sub have "c_id c \<in> set (map s_content_id (summaries (cur s)))" by auto
  from filter_by_key[OF d2 this] obtain sm where
    f2: "filter (\<lambda>y. s_content_id y = c_id c) (summaries (cur s)) = [sm]" by blast
  show ?thesis
    using f1 f2
    by (simp add: get_content_details_def bnd_def db_select_def round_trip_def nf gets_def
        scalar_one_def scalar_one_or_none_def ret_def envelope_of_def)
qed

lemma dedup_short_circuit:
  assumes nf: "\<forall>n. e_faults env n = None"
    and ok: "store_ok s"
    and fe: "factory_extract env source is_file = Inr ex"
    and mem: "ec \<in> set (contents (cur s))"
    and hash: "c_content_hash ec = generate_content_hash (e_sha256 env) (ex_content ex) (md (ex_title ex))"
  shows "process_body env source is_file md su fp s
     = (Inr (envelope_of (cur s) ec), s\<lparr>round_trips := round_trips s + 4\<rparr>)"
proof -
  from ok have d: "distinct (map c_content_hash (contents (cur s)))" by (simp add: store_ok_def)
  from filter_unique[OF d mem] hash
  have f: "filter (\<lambda>c. c_content_hash c = generate_content_hash (e_sha256 env) (ex_content ex) (md (ex_title ex)))
             (contents (cur s)) = [ec]" by simp
  define sa where "sa = s\<lparr>round_trips := Suc (round_trips s)\<rparr>"
  have oka: "store_ok sa" using ok by (simp add: store_ok_def sa_def)
  have mema: "ec \<in> set (contents (cur sa))" using mem by (simp add: sa_def)
  have "process_body env source is_file md su fp s = get_content_details env (c_id ec) sa"
    using fe f
    by (simp add: process_body_def Let_def bnd_def lift_exn_def db_select_def round_trip_def nf gets_def
        scalar_one_or_none_def ret_def sa_def)
  also have "\<dots> = (Inr (envelope_of (cur sa) ec), sa\<lparr>round_trips := round_trips sa + 3\<rparr>)"
    by (rule get_content_details_ok[OF nf oka mema])
  also have "\<dots> = (Inr (envelope_of (cur s) ec), s\<lparr>round_trips := round_trips s + 4\<rparr>)"
    by (simp add: sa_def)
  finally show ?thesis .
qed

lemma store_ok_round_trips: "store_ok (s\<lparr>round_trips := n\<rparr>) = store_ok s"
  by (simp add: store_ok_def)

lemma envelope_content_id: "r_content_id (envelope_of t c) = c_id c"
  by (simp add: envelope_of_def details_of_def)

lemma one_summary:
  assumes ok: "store_ok s" and mem: "c \<in> set (contents (cur s))"
  shows "length (filter (\<lambda>sm. s_content_id sm = c_id c) (summaries (cur s))) = 1"
proof -
  from ok have d2: "distinct (map s_content_id (summaries (cur s)))"
    and sub: "set (map c_id (contents (cur s))) \<subseteq> set (map s_content_id (summaries (cur s)))"
    by (simp_all add: store_ok_def)
  from mem sub have "c_id c \<in> set (map s_content_id (summaries (cur s)))" by auto
  from filter_by_key[OF d2 this] show ?thesis by auto
qed

lemma store_ok_extend:
  assumes ok: "store_ok s"
    and fresh: "\<forall>ec\<in>set (contents (cur s)). c_content_hash ec \<noteq> c_content_hash c"
    and cs: "contents (cur s2) = contents (cur s) @ [c]"
    and ss: "summaries (cur s2) = summaries (cur s) @ [sm]"
    and link: "s_content_id sm = c_id c"
    and cid: "c_id c = next_content_id s"
    and nxt: "next_content_id s2 = next_content_id s + 1"
  shows "store_ok s2"
proof -
  from ok have d1: "distinct (map c_id (contents (cur s)))"
    and dh: "distinct (map c_content_hash (contents (cur s)))"
    and d2: "distinct (map s_content_id (summaries (cur s)))"
    and sub: "set (map c_id (contents (cur s))) \<subseteq> set (map s_content_id (summaries (cur s)))"
    and b1: "\<forall>x\<in>set (contents (cur s)). c_id x < next_content_id s"
    and b2: "\<forall>x\<in>set (summaries (cur s)). s_content_id x < next_content_id s"
    by (simp_all add: store_ok_def list_all_iff)
  from b1 cid have n1: "c_id c \<notin> set (map c_id (contents (cur s)))" by auto
  from fresh have nh: "c_content_hash c \<notin> set (map c_content_hash (contents (cur s)))" by auto
  from b2 cid link have n2: "s_content_id sm \<notin> set (map s_content_id (summaries (cur s)))" by auto
  from sub link have sub2: "set (map c_id (contents (cur s) @ [c])) \<subseteq> set (map s_content_id (summaries (cur s) @ [sm]))"
    by auto
  from b1 cid have b1': "\<forall>x\<in>set (contents (cur s) @ [c]). c_id x < next_content_id s + 1" by auto
  from b2 cid link have b2': "\<forall>x\<in>set (summaries (cur s) @ [sm]). s_content_id x < next_content_id s + 1" by auto
  show ?thesis
    unfolding store_ok_def cs ss nxt list_all_iff
    using d1 dh d2 n1 nh n2 sub2 b1' b2' by simp
qed

lemma commit_and_return_ok:
  assumes nf: "\<forall>n. e_faults env n = None"
    and ok: "store_ok s"
    and mem: "c \<in> set (contents (cur s))"
  shows "commit_and_return env c s
     = (Inr (envelope_of (cur s) c),
        s\<lparr>round_trips := round_trips s + 5, com := cur s, commits := Suc (commits s)\<rparr>)"
proof -
  define se where "se = s\<lparr>round_trips := Suc (Suc (round_trips s)), com := cur s, commits := Suc (commits s)\<rparr>"
  have oke: "store_ok se" using ok by (simp add: store_ok_def se_def)
  have meme: "c \<in> set (contents (cur se))" using mem by (simp add: se_def)
  have "commit_and_return env c s = get_content_details env (c_id c) se"
    apply (simp add: commit_and_return_def commit_def bnd_def round_trip_def nf modify_def se_def)
    apply (rule arg_cong[where f = "get_content_details env (c_id c)"])
    apply simp
    done
  also have "\<dots> = (Inr (envelope_of (cur se) c), se\<lparr>round_trips := round_trips se + 3\<rparr>)"
    by (rule get_content_details_ok[OF nf oke meme])
  also have "\<dots> = (Inr (envelope_of (cur s) c),
        s\<lparr>round_trips := round_trips s + 5, com := cur s, commits := Suc (commits s)\<rparr>)"
    by (simp add: se_def)
  finally show ?thesis .
qed

lemma resubmit_generic:
  assumes nf: "\<forall>n. e_faults env n = None"
    and ok: "store_ok s"
    and run: "process_body env source is_file md su fp s = (Inr r, s1)"
  shows "process_body env source is_file md su fp s1 = (Inr r, s1\<lparr>round_trips := round_trips s1 + 4\<rparr>)
       \<and> length (filter (\<lambda>sm. s_content_id sm = r_content_id r) (summaries (cur s1))) = 1
       \<and> store_ok s1"
proof (cases "factory_extract env source is_file")
  case (Inl e)
  with run show ?thesis by (simp add: process_body_def bnd_def lift_exn_def)
next
  case (Inr ex)
  let ?h = "generate_content_hash (e_sha256 env) (ex_content ex) (md (ex_title ex))"
  show ?thesis
  proof (cases "\<exists>ec\<in>set (contents (cur s)). c_content_hash ec = ?h")
    case True
    then obtain ec where mem: "ec \<in> set (contents (cur s))" and hash: "c_content_hash ec = ?h" by blast
    from dedup_short_circuit[where md = md, OF nf ok Inr mem hash, of su fp] run
    have r: "r = envelope_of (cur s) ec" and s1: "s1 = s\<lparr>round_trips := round_trips s + 4\<rparr>"
      by simp_all
    have ok1: "store_ok s1" using ok unfolding s1 by (simp add: store_ok_round_trips)
    have mem1: "ec \<in> set (contents (cur s1))" using mem unfolding s1 by simp
    have again: "process_body env source is_file md su fp s1
        = (Inr (envelope_of (cur s1) ec), s1\<lparr>round_trips := round_trips s1 + 4\<rparr>)"
      by (rule dedup_short_circuit[where md = md, OF nf ok1 Inr mem1 hash])
    have cur1: "cur s1 = cur s" unfolding s1 by simp
    from one_summary[OF ok1 mem1] again ok1 show ?thesis
      unfolding r envelope_content_id cur1 by simp
  next
    case False
    then have empty: "filter (\<lambda>c. c_content_hash c = ?h) (contents (cur s)) = []"
      by (simp add: filter_empty_conv)
    define sa where "sa = s\<lparr>round_trips := Suc (round_trips s)\<rparr>"
    have oka: "store_ok sa" using ok by (simp add: sa_def store_ok_round_trips)
    from run Inr empty have run2:
      "bnd (process_new env source is_file su fp ex ?h) (commit_and_return env) sa = (Inr r, s1)"
      by (simp add: process_body_def Let_def bnd_def lift_exn_def db_select_def round_trip_def nf gets_def
          scalar_one_or_none_def ret_def sa_def)
    from run2 obtain c sc where pn: "process_new env source is_file su fp ex ?h sa = (Inr c, sc)"
      and car: "commit_and_return env c sc = (Inr r, s1)"
      by (rule bnd_Inr_split)
    from process_new_success[OF pn] obtain sm where post:
      "contents (cur sc) = contents (cur sa) @ [c]"
      "summaries (cur sc) = summaries (cur sa) @ [sm]"
      "s_content_id sm = c_id c" "c_id c = next_content_id sa" "c_content_hash c = ?h"
      "next_content_id sc = next_content_id sa + 1"
      by blast
    from False post(5) have fresh: "\<forall>ec\<in>set (contents (cur sa)). c_content_hash ec \<noteq> c_content_hash c"
      by (simp add: sa_def)
    have okc: "store_ok sc"
      by (rule store_ok_extend[OF oka fresh post(1) post(2) post(3) post(4) post(6)])
    have memc: "c \<in> set (contents (cur sc))" using post(1) by simp
    from commit_and_return_ok[OF nf okc memc] car
    have r: "r = envelope_of (cur sc) c"
      and s1: "s1 = sc\<lparr>round_trips := round_trips sc + 5, com := cur sc, commits := Suc (commits sc)\<rparr>"
      by simp_all
    have cur1: "cur s1 = cur sc" unfolding s1 by simp
    have ok1: "store_ok s1" using okc unfolding s1 by (simp add: store_ok_def)
    have mem1: "c \<in> set (contents (cur s1))" using memc cur1 by simp
    have again: "process_body env source is_file md su fp s1
        = (Inr (envelope_of (cur s1) c), s1\<lparr>round_trips := round_trips s1 + 4\<rparr>)"
      by (rule dedup_short_circuit[where md = md, OF nf ok1 Inr mem1 post(5)])
    from one_summary[OF ok1 mem1] again ok1 show ?thesis
      unfolding r envelope_content_id cur1 by simp
  qed
qed

lemma catch_Inr: "m s = (Inr x, s') \<Longrightarrow> catch m h s = (Inr x, s')"
  by (simp add: catch_def)

lemma catch_Inr_iff:
  "catch m (rollback_and_wrap prefix) s = (Inr x, s') \<longleftrightarrow> m s = (Inr x, s')"
proof (cases "m s")
  case (Pair r s1)
  then show ?thesis
    by (cases r) (simp_all add: catch_def rollback_and_wrap_def rollback_def bnd_def modify_def raise_def)
qed

text \<open>
  C2. With no database fault, a store in which ids are unique and below their sequences
  and every content row has one summary, and an extraction that succeeds: if a content
  row with the computed hash exists, \<open>process_url\<close> and \<open>process_file\<close> return the
  envelope of that row, leave every table unchanged and make no LLM request; and a
  submission that succeeded, submitted again, returns the same envelope (hence the same
  content id), makes no LLM request and leaves the tables as the first call left them,
  with exactly one summary for that content.
\<close>

theorem resubmission_is_idempotent:
  assumes nf: "\<forall>n. e_faults env n = None"
    and ok: "store_ok s"
  shows "(\<forall>ex ec. factory_extract env url False = Inr ex \<and> ec \<in> set (contents (cur s))
            \<and> c_content_hash ec
                = generate_content_hash (e_sha256 env) (ex_content ex) (url_metadata url (ex_title ex))
          \<longrightarrow> process_url env url s
                = (Inr (envelope_of (cur s) ec), s\<lparr>round_trips := round_trips s + 4\<rparr>)
              \<and> r_content_id (envelope_of (cur s) ec) = c_id ec)
       \<and> (\<forall>r s1. process_url env url s = (Inr r, s1)
          \<longrightarrow> process_url env url s1 = (Inr r, s1\<lparr>round_trips := round_trips s1 + 4\<rparr>)
              \<and> length (filter (\<lambda>sm. s_content_id sm = r_content_id r) (summaries (cur s1))) = 1
              \<and> store_ok s1)
       \<and> (\<forall>ex ec. factory_extract env file_path True = Inr ex \<and> ec \<in> set (contents (cur s))
            \<and> c_content_hash ec
                = generate_content_hash (e_sha256 env) (ex_content ex)
                    (file_metadata original_filename (ex_title ex))
          \<longrightarrow> process_file env file_path original_filename s
                = (Inr (envelope_of (cur s) ec), s\<lparr>round_trips := round_trips s + 4\<rparr>)
              \<and> r_content_id (envelope_of (cur s) ec) = c_id ec)
       \<and> (\<forall>r s1. process_file env file_path original_filename s = (Inr r, s1)
          \<longrightarrow> process_file env file_path original_filename s1
                = (Inr r, s1\<lparr>round_trips := round_trips s1 + 4\<rparr>)
              \<and> length (filter (\<lambda>sm. s_content_id sm = r_content_id r) (summaries (cur s1))) = 1
              \<and> store_ok s1)"
proof (intro conjI allI impI)
  fix ex ec
  assume a: "factory_extract env url False = Inr ex \<and> ec \<in> set (contents (cur s))
            \<and> c_content_hash ec
                = generate_content_hash (e_sha256 env) (ex_content ex) (url_metadata url (ex_title ex))"
  then have "process_body env url False (url_metadata url) (Some url) None s
     = (Inr (envelope_of (cur s) ec), s\<lparr>round_trips := round_trips s + 4\<rparr>)"
    by (intro dedup_short_circuit[where md = "url_metadata url" and ex = ex, OF nf ok]) simp_all
  then show "process_url env url s
                = (Inr (envelope_of (cur s) ec), s\<lparr>round_trips := round_trips s + 4\<rparr>)"
    unfolding process_url_def by (rule catch_Inr)
  show "r_content_id (envelope_of (cur s) ec) = c_id ec" by (rule envelope_content_id)
next
  fix ex ec
  assume a: "factory_extract env file_path True = Inr ex \<and> ec \<in> set (contents (cur s))
            \<and> c_content_hash ec
                = generate_content_hash (e_sha256 env) (ex_content ex)
                    (file_metadata original_filename (ex_title ex))"
  then have "process_body env file_path True (file_metadata original_filename) None (Some file_path) s
     = (Inr (envelope_of (cur s) ec), s\<lparr>round_trips := round_trips s + 4\<rparr>)"
    by (intro dedup_short_circuit[where md = "file_metadata original_filename" and ex = ex, OF nf ok]) simp_all
  then show "process_file env file_path original_filename s
                = (Inr (envelope_of (cur s) ec), s\<lparr>round_trips := round_trips s + 4\<rparr>)"
    unfolding process_file_def by (rule catch_Inr)
  show "r_content_id (envelope_of (cur s) ec) = c_id ec" by (rule envelope_content_id)
next
  fix r s1
  assume "process_url env url s = (Inr r, s1)"
  then have "process_body env url False (url_metadata url) (Some url) None s = (Inr r, s1)"
    unfolding process_url_def catch_Inr_iff .
  from resubmit_generic[OF nf ok this]
  show "process_url env url s1 = (Inr r, s1\<lparr>round_trips := round_trips s1 + 4\<rparr>)"
    and "length (filter (\<lambda>sm. s_content_id sm = r_content_id r) (summaries (cur s1))) = 1"
    and "store_ok s1"
    unfolding process_url_def catch_Inr_iff by simp_all
next
  fix r s1
  assume "process_file env file_path original_filename s = (Inr r, s1)"
  then have "process_body env file_path True (file_metadata original_filename) None (Some file_path) s = (Inr r, s1)"
    unfolding process_file_def catch_Inr_iff .
  from resubmit_generic[OF nf ok this]
  show "process_file env file_path original_filename s1 = (Inr r, s1\<lparr>round_trips := round_trips s1 + 4\<rparr>)"
    and "length (filter (\<lambda>sm. s_content_id sm = r_content_id r) (summaries (cur s1))) = 1"
    and "store_ok s1"
    unfolding process_file_def catch_Inr_iff by simp_all
qed

lemma example_extraction:
  "factory_extract (example_env ''summary'') ''http://a.b/c'' False = Inr example_extracted"
  by code_simp

lemma example_hash:
  "generate_content_hash (e_sha256 (example_env ''summary'')) (ex_content example_extracted)
     (url_metadata ''http://a.b/c'' (ex_title example_extracted)) = ''some body|http://a.b/c|Title''"
  by code_simp

lemma stored_ok: "store_ok after_first_submission"
  by (simp add: store_ok_def after_first_submission_def first_tables_def first_content_def)

lemma stored_envelope: "envelope_of first_tables first_content = example_envelope"
  by (simp add: envelope_of_def details_of_def first_tables_def first_content_def example_envelope_def)

theorem resubmission_is_idempotent_witness:
  "process_url (example_env ''summary'') ''http://a.b/c'' after_first_submission
     = (Inr example_envelope, after_first_submission\<lparr>round_trips := 18\<rparr>)
   \<and> process_url (example_env ''summary'') ''http://a.b/c'' (after_first_submission\<lparr>round_trips := 18\<rparr>)
     = (Inr example_envelope, after_first_submission\<lparr>round_trips := 22\<rparr>)
   \<and> r_content_id example_envelope = c_id first_content
   \<and> length (filter (\<lambda>sm. s_content_id sm = 1) (summaries (cur after_first_submission))) = 1"
proof -
  let ?E = "example_env ''summary''"
  let ?u = "''http://a.b/c''"
  note t = resubmission_is_idempotent[OF example_no_faults stored_ok, of "''summary''" ?u]
  have pre: "factory_extract ?E ?u False = Inr example_extracted
      \<and> first_content \<in> set (contents (cur after_first_submission))
      \<and> c_content_hash first_content
          = generate_content_hash (e_sha256 ?E) (ex_content example_extracted)
              (url_metadata ?u (ex_title example_extracted))"
    unfolding example_hash
    by (simp add: example_extraction after_first_submission_def first_tables_def first_content_def)
  from t have first: "\<forall>ex ec. factory_extract ?E ?u False = Inr ex
            \<and> ec \<in> set (contents (cur after_first_submission))
            \<and> c_content_hash ec
                = generate_content_hash (e_sha256 ?E) (ex_content ex) (url_metadata ?u (ex_title ex))
          \<longrightarrow> process_url ?E ?u after_first_submission
                = (Inr (envelope_of (cur after_first_submission) ec),
                   after_first_submission\<lparr>round_trips := round_trips after_first_submission + 4\<rparr>)
              \<and> r_content_id (envelope_of (cur after_first_submission) ec) = c_id ec"
    by (rule conjunct1)
  from first[rule_format, OF pre]
  have a: "process_url ?E ?u after_first_submission
             = (Inr example_envelope, after_first_submission\<lparr>round_trips := 18\<rparr>)"
    and b: "r_content_id example_envelope = c_id first_content"
    by (simp_all add: after_first_submission_def stored_envelope)
  from t have second: "\<forall>r s1. process_url ?E ?u after_first_submission = (Inr r, s1)
          \<longrightarrow> process_url ?E ?u s1 = (Inr r, s1\<lparr>round_trips := round_trips s1 + 4\<rparr>)
              \<and> length (filter (\<lambda>sm. s_content_id sm = r_content_id r) (summaries (cur s1))) = 1
              \<and> store_ok s1"
    by (rule conjunct1[OF conjunct2])
  from second[rule_format, OF a]
  have c: "process_url ?E ?u (after_first_submission\<lparr>round_trips := 18\<rparr>)
             = (Inr example_envelope, after_first_submission\<lparr>round_trips := 22\<rparr>)"
    and d: "length (filter (\<lambda>sm. s_content_id sm = 1) (summaries (cur after_first_submission))) = 1"
    by (simp_all add: after_first_submission_def example_envelope_def)
  from a c b d show ?thesis by (intro conjI)
qed

end
